theory Spec2Isabelle
  imports Complex_Main "HOL-Library.Word"
begin

text \<open>
  A model of the converter of GeoJSON into intermediate features (\<open>convertFeatures\<close>,
  \<open>convertFeature\<close>, \<open>convertPoint\<close>, \<open>convertLine\<close>, \<open>convertLines\<close>,
  \<open>projectX\<close> and \<open>projectY\<close>), and the properties the specification states of it.
  The definitions come first, function by function as the source has them; the
  properties follow.
\<close>

section \<open>Numbers\<close>

text \<open>
  The converter computes with JavaScript numbers (IEEE-754 doubles). The model keeps the
  special values apart and the finite ones as reals:
  \<^item> a finite result is not rounded to 53 bits, and zero carries no sign;
  \<^item> a finite result whose magnitude reaches \<open>2^1024 - 2^970\<close> (the point from which
    round-to-nearest returns an infinity) overflows to the infinity of its sign;
  \<^item> the special values follow the IEEE-754 tables for each operation.
  \<open>Math.PI\<close> is the real \<open>pi\<close>.
\<close>

datatype number = Fin real | PosInf | NegInf | NaN

definition overflow_threshold :: real where
  "overflow_threshold = 2 ^ 1024 - 2 ^ 970"

definition rnd :: "real \<Rightarrow> number" where
  "rnd r = (if overflow_threshold \<le> r then PosInf
            else if r \<le> - overflow_threshold then NegInf
            else Fin r)"

fun nneg :: "number \<Rightarrow> number" where
  "nneg (Fin a) = Fin (- a)"
| "nneg PosInf = NegInf"
| "nneg NegInf = PosInf"
| "nneg NaN = NaN"

fun nadd :: "number \<Rightarrow> number \<Rightarrow> number" where
  "nadd (Fin a) (Fin b) = rnd (a + b)"
| "nadd (Fin a) PosInf = PosInf"
| "nadd (Fin a) NegInf = NegInf"
| "nadd PosInf (Fin b) = PosInf"
| "nadd PosInf PosInf = PosInf"
| "nadd PosInf NegInf = NaN"
| "nadd NegInf (Fin b) = NegInf"
| "nadd NegInf PosInf = NaN"
| "nadd NegInf NegInf = NegInf"
| "nadd NaN b = NaN"
| "nadd a NaN = NaN"

definition nsub :: "number \<Rightarrow> number \<Rightarrow> number" where
  "nsub a b = nadd a (nneg b)"

fun nmul :: "number \<Rightarrow> number \<Rightarrow> number" where
  "nmul (Fin a) (Fin b) = rnd (a * b)"
| "nmul (Fin a) PosInf = (if a = 0 then NaN else if 0 < a then PosInf else NegInf)"
| "nmul (Fin a) NegInf = (if a = 0 then NaN else if 0 < a then NegInf else PosInf)"
| "nmul PosInf (Fin b) = (if b = 0 then NaN else if 0 < b then PosInf else NegInf)"
| "nmul NegInf (Fin b) = (if b = 0 then NaN else if 0 < b then NegInf else PosInf)"
| "nmul PosInf PosInf = PosInf"
| "nmul PosInf NegInf = NegInf"
| "nmul NegInf PosInf = NegInf"
| "nmul NegInf NegInf = PosInf"
| "nmul NaN b = NaN"
| "nmul a NaN = NaN"

fun ndiv :: "number \<Rightarrow> number \<Rightarrow> number" where
  "ndiv (Fin a) (Fin b) =
     (if b = 0 then (if a = 0 then NaN else if 0 < a then PosInf else NegInf)
      else rnd (a / b))"
| "ndiv (Fin a) PosInf = Fin 0"
| "ndiv (Fin a) NegInf = Fin 0"
| "ndiv PosInf (Fin b) = (if 0 \<le> b then PosInf else NegInf)"
| "ndiv NegInf (Fin b) = (if 0 \<le> b then NegInf else PosInf)"
| "ndiv PosInf PosInf = NaN"
| "ndiv PosInf NegInf = NaN"
| "ndiv NegInf PosInf = NaN"
| "ndiv NegInf NegInf = NaN"
| "ndiv NaN b = NaN"
| "ndiv a NaN = NaN"

text \<open>The comparisons \<open><\<close> and \<open>>\<close>: false as soon as one side is \<open>NaN\<close>.\<close>

fun nlt :: "number \<Rightarrow> number \<Rightarrow> bool" where
  "nlt (Fin a) (Fin b) = (a < b)"
| "nlt (Fin a) PosInf = True"
| "nlt NegInf (Fin b) = True"
| "nlt NegInf PosInf = True"
| "nlt a b = False"

definition ngt :: "number \<Rightarrow> number \<Rightarrow> bool" where
  "ngt a b = nlt b a"

definition nge :: "number \<Rightarrow> number \<Rightarrow> bool" where
  "nge a b = (a \<noteq> NaN \<and> b \<noteq> NaN \<and> \<not> nlt a b)"

definition Math_PI :: number where
  "Math_PI = Fin pi"

fun Math_sin :: "number \<Rightarrow> number" where
  "Math_sin (Fin a) = Fin (sin a)"
| "Math_sin a = NaN"

fun Math_log :: "number \<Rightarrow> number" where
  "Math_log (Fin a) = (if a < 0 then NaN else if a = 0 then NegInf else Fin (ln a))"
| "Math_log PosInf = PosInf"
| "Math_log a = NaN"

fun Math_sqrt :: "number \<Rightarrow> number" where
  "Math_sqrt (Fin a) = (if a < 0 then NaN else Fin (sqrt a))"
| "Math_sqrt PosInf = PosInf"
| "Math_sqrt a = NaN"

fun Math_abs :: "number \<Rightarrow> number" where
  "Math_abs (Fin a) = Fin \<bar>a\<bar>"
| "Math_abs PosInf = PosInf"
| "Math_abs NegInf = PosInf"
| "Math_abs NaN = NaN"

text \<open>\<open>Math.pow(a, 2)\<close>, the only power the converter takes.\<close>

fun Math_pow2 :: "number \<Rightarrow> number" where
  "Math_pow2 (Fin a) = rnd (a * a)"
| "Math_pow2 PosInf = PosInf"
| "Math_pow2 NegInf = PosInf"
| "Math_pow2 NaN = NaN"

section \<open>The projection\<close>

definition projectX :: "number \<Rightarrow> number" where
  "projectX x = nadd (ndiv x (Fin 360)) (Fin (1/2))"

definition projectY :: "number \<Rightarrow> number" where
  "projectY y =
     (let sin = Math_sin (ndiv (nmul y Math_PI) (Fin 180));
          y2 = nsub (Fin (1/2))
                 (ndiv (nmul (Fin (1/4)) (Math_log (ndiv (nadd (Fin 1) sin) (nsub (Fin 1) sin))))
                    Math_PI)
      in if nlt y2 (Fin 0) then Fin 0 else if ngt y2 (Fin 1) then Fin 1 else y2)"

section \<open>Input: decoded GeoJSON\<close>

text \<open>
  A position is the array of numbers of a coordinate; the converter reads its elements 0
  and 1. Reading a missing element gives \<open>undefined\<close>, which the arithmetic of the
  projection turns into \<open>NaN\<close>.
\<close>

type_synonym position = "number list"

definition coord :: "position \<Rightarrow> nat \<Rightarrow> number" where
  "coord p i = (if i < length p then p ! i else NaN)"

text \<open>
  Values of properties and identifiers, and the properties object as the list of its own
  members (what an object inherits from its prototype is not modelled).
  \<open>OtherGeometry s\<close> is a geometry object whose kind string is \<open>s\<close> and that has
  neither a \<open>coordinates\<close> nor a \<open>geometries\<close> member.
\<close>

datatype jsval = JNull | JBool bool | JNum number | JStr string

type_synonym props = "(string \<times> jsval) list"

datatype geometry =
    Point position
  | MultiPoint "position list"
  | LineString "position list"
  | MultiLineString "position list list"
  | Polygon "position list list"
  | MultiPolygon "position list list list"
  | GeometryCollection "geometry list"
  | OtherGeometry string

text \<open>
  A feature as \<open>convertFeature\<close> reads it: \<open>None\<close> is an absent (or null) member.
  For \<open>feature_id\<close> it is \<open>undefined\<close>.
\<close>

record feature =
  feature_id :: "jsval option"
  geometry :: "geometry option"
  properties :: "props option"

datatype geojson =
    FeatureCollection "feature list"
  | Feature feature
  | Geometry geometry

text \<open>The options that the converter reads, each of them given.\<close>

record options =
  maxZoom :: int
  tolerance :: number
  extent :: number
  lineMetrics :: bool
  promoteId :: "string option"
  generateId :: bool

datatype error = Error string | TypeError

definition UnsupportedGeometry :: error where
  "UnsupportedGeometry = Error ''Input data is not a valid GeoJSON object.''"

section \<open>Output: intermediate features\<close>

text \<open>
  A flattened ring or line is the array \<open>out\<close> of \<open>convertLine\<close> with the three
  annotations it sets on it. An array element is \<open>None\<close> where the array has a hole.
\<close>

record flatline =
  coords :: "number option list"
  line_size :: number
  line_start :: number
  line_end :: number

datatype container =
    Points "number list"
  | Line flatline
  | Lines "flatline list"
  | Polygons "flatline list list"

record protoFeature =
  pf_id :: "jsval option"
  pf_type :: string
  pf_geometry :: container
  pf_tags :: "props option"

text \<open>
  Modelled from the spec: \<open>createFeature\<close> of \<open>./proto-feature\<close> is not part of the
  sources. The spec's intermediate feature holds the resolved id, the kind, the geometry
  container and the properties, carried through unmodified.
\<close>

definition createFeature :: "jsval option \<Rightarrow> string \<Rightarrow> container \<Rightarrow> props option \<Rightarrow> protoFeature" where
  "createFeature i t g tags = \<lparr>pf_id = i, pf_type = t, pf_geometry = g, pf_tags = tags\<rparr>"

text \<open>
  The simplifier \<open>simplify(coords, first, last, sqTolerance)\<close> of \<open>./simplify-path\<close> is
  not part of the sources either: the converter takes it as a parameter, a function from
  the buffer to the buffer it leaves behind.
\<close>

type_synonym simplifier = "number option list \<Rightarrow> int \<Rightarrow> int \<Rightarrow> number \<Rightarrow> number option list"

section \<open>The converter\<close>

text \<open>
  The assignment \<open>out[i] = v\<close> on a JavaScript array: an index beyond the end extends
  the array and leaves holes; a negative index names a property that is no element of
  the array, which the model does not keep.
\<close>

definition js_set :: "'a option list \<Rightarrow> int \<Rightarrow> 'a \<Rightarrow> 'a option list" where
  "js_set xs i v =
     (if i < 0 then xs
      else if nat i < length xs then xs[nat i := Some v]
      else xs @ replicate (nat i - length xs) None @ [Some v])"

definition convertPoint :: "position \<Rightarrow> number list \<Rightarrow> number list" where
  "convertPoint p out = out @ [projectX (coord p 0), projectY (coord p 1), Fin 0]"

text \<open>
  The loop of \<open>convertLine\<close>. \<open>prev\<close> is \<open>None\<close> in the first round (\<open>j = 0\<close>, where
  \<open>x0\<close> and \<open>y0\<close> are not read) and the previous projected vertex afterwards; \<open>sz\<close> is
  the running \<open>size\<close>.
\<close>

fun convertLine_loop ::
  "position list \<Rightarrow> (number \<times> number) option \<Rightarrow> bool \<Rightarrow> number option list \<Rightarrow> number
     \<Rightarrow> number option list \<times> number" where
  "convertLine_loop [] prev isPolygon out sz = (out, sz)"
| "convertLine_loop (p # ring) prev isPolygon out sz =
     (let x = projectX (coord p 0);
          y = projectY (coord p 1);
          out' = out @ [Some x, Some y, Some (Fin 0)];
          sz' = (case prev of
                     None \<Rightarrow> sz
                   | Some (x0, y0) \<Rightarrow>
                       if isPolygon
                       then nadd sz (ndiv (nsub (nmul x0 y) (nmul x y0)) (Fin 2))
                       else nadd sz (Math_sqrt (nadd (Math_pow2 (nsub x x0)) (Math_pow2 (nsub y y0)))))
      in convertLine_loop ring (Some (x, y)) isPolygon out' sz')"

definition convertLine :: "simplifier \<Rightarrow> position list \<Rightarrow> number option list \<Rightarrow> number \<Rightarrow> bool \<Rightarrow> flatline" where
  "convertLine simplify ring out tol isPolygon =
     (let (out1, sz) = convertLine_loop ring None isPolygon out (Fin 0);
          last = int (length out1) - 3;
          out2 = js_set out1 2 (Fin 1);
          out3 = simplify out2 0 last tol;
          out4 = js_set out3 (last + 2) (Fin 1)
      in \<lparr>coords = out4, line_size = Math_abs sz, line_start = Fin 0,
          line_end = Math_abs sz\<rparr>)"

fun convertLines :: "simplifier \<Rightarrow> position list list \<Rightarrow> flatline list \<Rightarrow> number \<Rightarrow> bool \<Rightarrow> flatline list" where
  "convertLines simplify [] out tol isPolygon = out"
| "convertLines simplify (ring # rings) out tol isPolygon =
     convertLines simplify rings (out @ [convertLine simplify ring [] tol isPolygon]) tol isPolygon"

text \<open>
  Line 62: the squared tolerance. \<open>1 << maxZoom\<close> is a shift of 32-bit integers: the
  shift count is taken modulo 32 and the result is read as a signed 32-bit value.
\<close>

definition shl1 :: "int \<Rightarrow> int" where
  "shl1 n = sint (push_bit (nat (n mod 32)) (1 :: 32 word))"

definition sqTolerance :: "options \<Rightarrow> number" where
  "sqTolerance opts =
     Math_pow2 (ndiv (tolerance opts) (nmul (Fin (real_of_int (shl1 (maxZoom opts)))) (extent opts)))"

text \<open>
  Lines 64 to 69: the id of the features to emit. \<open>options.promoteId\<close> counts when it is
  a non-empty string (\<open>promote_key\<close>); reading a property of absent properties raises a
  \<open>TypeError\<close>, and a property the object does not have is \<open>undefined\<close>.
  \<open>index || 0\<close> is 0 for an absent index.
\<close>

definition promote_key :: "options \<Rightarrow> string option" where
  "promote_key opts =
     (case promoteId opts of None \<Rightarrow> None | Some key \<Rightarrow> if key = [] then None else Some key)"

definition resolveId :: "feature \<Rightarrow> options \<Rightarrow> nat option \<Rightarrow> error + jsval option" where
  "resolveId geojson opts index =
     (case promote_key opts of
        Some key \<Rightarrow>
          (case properties geojson of
             None \<Rightarrow> Inl TypeError
           | Some ps \<Rightarrow> Inr (map_of ps key))
      | None \<Rightarrow>
          if generateId opts
          then Inr (Some (JNum (Fin (real (case index of None \<Rightarrow> 0 | Some i \<Rightarrow> i)))))
          else Inr (feature_id geojson))"

definition recognised :: "string list" where
  "recognised = [''Point'', ''MultiPoint'', ''LineString'', ''MultiLineString'', ''Polygon'',
     ''MultiPolygon'', ''GeometryCollection'']"

text \<open>
  \<open>convertFeature\<close> appends to \<open>features\<close> and returns nothing; the model returns the
  array it leaves behind, or the exception it raises. \<open>convertFeature_each\<close> is its loop
  over the children of a geometry collection. A geometry of a recognised kind that lacks
  its coordinates raises a \<open>TypeError\<close> where they are read.
\<close>

function convertFeature ::
  "simplifier \<Rightarrow> protoFeature list \<Rightarrow> feature \<Rightarrow> options \<Rightarrow> nat option \<Rightarrow> error + protoFeature list"
and convertFeature_each ::
  "simplifier \<Rightarrow> protoFeature list \<Rightarrow> geometry list \<Rightarrow> jsval option \<Rightarrow> props option \<Rightarrow> options
     \<Rightarrow> nat option \<Rightarrow> error + protoFeature list" where
  "convertFeature simplify features geojson opts index =
     (case geometry geojson of
        None \<Rightarrow> Inr features
      | Some g \<Rightarrow>
          (case resolveId geojson opts index of
             Inl e \<Rightarrow> Inl e
           | Inr i \<Rightarrow>
               (case g of
                  Point c \<Rightarrow>
                    Inr (features @ [createFeature i ''Point'' (Points (convertPoint c []))
                      (properties geojson)])
                | MultiPoint cs \<Rightarrow>
                    Inr (features @ [createFeature i ''MultiPoint''
                      (Points (foldl (\<lambda>out p. convertPoint p out) [] cs)) (properties geojson)])
                | LineString cs \<Rightarrow>
                    Inr (features @ [createFeature i ''LineString''
                      (Line (convertLine simplify cs [] (sqTolerance opts) False))
                      (properties geojson)])
                | MultiLineString ls \<Rightarrow>
                    if lineMetrics opts
                    then Inr (foldl (\<lambda>fs line. fs @ [createFeature i ''LineString''
                           (Line (convertLine simplify line [] (sqTolerance opts) False))
                           (properties geojson)]) features ls)
                    else Inr (features @ [createFeature i ''MultiLineString''
                           (Lines (convertLines simplify ls [] (sqTolerance opts) False))
                           (properties geojson)])
                | Polygon rs \<Rightarrow>
                    Inr (features @ [createFeature i ''Polygon''
                      (Lines (convertLines simplify rs [] (sqTolerance opts) True))
                      (properties geojson)])
                | MultiPolygon ps \<Rightarrow>
                    Inr (features @ [createFeature i ''MultiPolygon''
                      (Polygons (foldl (\<lambda>out polygon.
                         out @ [convertLines simplify polygon [] (sqTolerance opts) True]) [] ps))
                      (properties geojson)])
                | GeometryCollection gs \<Rightarrow>
                    convertFeature_each simplify features gs i (properties geojson) opts index
                | OtherGeometry s \<Rightarrow>
                    if s \<in> set recognised then Inl TypeError else Inl UnsupportedGeometry)))"
| "convertFeature_each simplify features [] i ps opts index = Inr features"
| "convertFeature_each simplify features (g # gs) i ps opts index =
     (case convertFeature simplify features
             \<lparr>feature_id = i, geometry = Some g, properties = ps\<rparr> opts index of
        Inl e \<Rightarrow> Inl e
      | Inr features' \<Rightarrow> convertFeature_each simplify features' gs i ps opts index)"
  by pat_completeness auto
termination
  by (relation "measure (\<lambda>a. case a of
        Inl (s, fs, geojson, opts, index) \<Rightarrow>
          (case geometry geojson of None \<Rightarrow> 0 | Some g \<Rightarrow> size g)
      | Inr (s, fs, gs, i, ps, opts, index) \<Rightarrow> size_list size gs)")
     auto

fun convertFeatures_loop ::
  "simplifier \<Rightarrow> protoFeature list \<Rightarrow> feature list \<Rightarrow> nat \<Rightarrow> options \<Rightarrow> error + protoFeature list" where
  "convertFeatures_loop simplify features [] i opts = Inr features"
| "convertFeatures_loop simplify features (f # fs) i opts =
     (case convertFeature simplify features f opts (Some i) of
        Inl e \<Rightarrow> Inl e
      | Inr features' \<Rightarrow> convertFeatures_loop simplify features' fs (Suc i) opts)"

definition convertFeatures :: "simplifier \<Rightarrow> geojson \<Rightarrow> options \<Rightarrow> error + protoFeature list" where
  "convertFeatures simplify data opts =
     (case data of
        FeatureCollection fs \<Rightarrow> convertFeatures_loop simplify [] fs 0 opts
      | Feature f \<Rightarrow> convertFeature simplify [] f opts None
      | Geometry g \<Rightarrow>
          convertFeature simplify [] \<lparr>feature_id = None, geometry = Some g, properties = None\<rparr>
            opts None)"


section \<open>Notions of the specification\<close>

text \<open>
  Modelled from the spec: the contract of the external Simplifier. It mutates significance
  values in place, so the buffer keeps its length, and it leaves the vertices at
  \<open>first\<close> and \<open>last\<close> untouched, in particular their significance slots
  \<open>first + 2\<close> and \<open>last + 2\<close>.
\<close>

definition simplifier_contract :: "simplifier \<Rightarrow> bool" where
  "simplifier_contract simplify \<longleftrightarrow>
     (\<forall>buf first last tol.
        length (simplify buf first last tol) = length buf \<and>
        (\<forall>i < length buf. int i = first + 2 \<or> int i = last + 2 \<longrightarrow>
           simplify buf first last tol ! i = buf ! i))"

text \<open>The simplifier that changes nothing; it serves as the concrete simplifier of the examples.\<close>

definition keep_all :: simplifier where
  "keep_all buf f l tol = buf"

text \<open>
  The spec's formula for the squared tolerance, with \<open>2^maxZoom\<close> the exact power of two.
\<close>

definition spec_sqTolerance :: "options \<Rightarrow> number" where
  "spec_sqTolerance opts =
     Math_pow2 (ndiv (tolerance opts) (nmul (Fin (2 ^ nat (maxZoom opts))) (extent opts)))"

text \<open>
  The spec's running metric over the projected vertices of a ring or line: between
  consecutive vertices the signed shoelace contribution \<open>(x0 * y1 - x1 * y0) / 2\<close> for a
  polygon ring and the Euclidean distance otherwise, added up from 0 in order; the first
  vertex contributes nothing.
\<close>

fun metric_step :: "bool \<Rightarrow> number \<times> number \<Rightarrow> number \<times> number \<Rightarrow> number" where
  "metric_step isPolygon (x0, y0) (x1, y1) =
     (if isPolygon then ndiv (nsub (nmul x0 y1) (nmul x1 y0)) (Fin 2)
      else Math_sqrt (nadd (Math_pow2 (nsub x1 x0)) (Math_pow2 (nsub y1 y0))))"

fun running_metric :: "bool \<Rightarrow> number \<Rightarrow> (number \<times> number) list \<Rightarrow> number" where
  "running_metric isPolygon acc (v0 # v1 # vs) =
     running_metric isPolygon (nadd acc (metric_step isPolygon v0 v1)) (v1 # vs)"
| "running_metric isPolygon acc vs = acc"

definition project :: "position \<Rightarrow> number \<times> number" where
  "project p = (projectX (coord p 0), projectY (coord p 1))"

text \<open>
  The geometries that make \<open>convertFeature\<close> emit exactly one feature: the recognised
  kinds other than a geometry collection, and other than a multi-line that \<open>lineMetrics\<close>
  explodes. \<open>kind_of\<close> is the kind string of a geometry.
\<close>

fun kind_of :: "geometry \<Rightarrow> string" where
  "kind_of (Point c) = ''Point''"
| "kind_of (MultiPoint cs) = ''MultiPoint''"
| "kind_of (LineString cs) = ''LineString''"
| "kind_of (MultiLineString ls) = ''MultiLineString''"
| "kind_of (Polygon rs) = ''Polygon''"
| "kind_of (MultiPolygon ps) = ''MultiPolygon''"
| "kind_of (GeometryCollection gs) = ''GeometryCollection''"
| "kind_of (OtherGeometry s) = s"

fun single_kind :: "options \<Rightarrow> geometry \<Rightarrow> bool" where
  "single_kind opts (Point c) = True"
| "single_kind opts (MultiPoint cs) = True"
| "single_kind opts (LineString cs) = True"
| "single_kind opts (MultiLineString ls) = (\<not> lineMetrics opts)"
| "single_kind opts (Polygon rs) = True"
| "single_kind opts (MultiPolygon ps) = True"
| "single_kind opts (GeometryCollection gs) = False"
| "single_kind opts (OtherGeometry s) = False"

text \<open>
  A geometry holds an unsupported kind when it is, or a collection in it holds, a geometry
  whose kind string is not recognised; it is incomplete when one of them has a recognised
  kind string and lacks its coordinates.
\<close>

fun unsupported :: "geometry \<Rightarrow> bool" where
  "unsupported (OtherGeometry s) = (s \<notin> set recognised)"
| "unsupported (GeometryCollection gs) = (\<exists>g \<in> set gs. unsupported g)"
| "unsupported g = False"

fun incomplete :: "geometry \<Rightarrow> bool" where
  "incomplete (OtherGeometry s) = (s \<in> set recognised)"
| "incomplete (GeometryCollection gs) = (\<exists>g \<in> set gs. incomplete g)"
| "incomplete g = False"

text \<open>The features an input hands to \<open>convertFeature\<close>, in order.\<close>

fun features_of :: "geojson \<Rightarrow> feature list" where
  "features_of (FeatureCollection fs) = fs"
| "features_of (Feature f) = [f]"
| "features_of (Geometry g) = [\<lparr>feature_id = None, geometry = Some g, properties = None\<rparr>]"

section \<open>Facts about the numbers\<close>

lemma overflow_threshold_gt: "2 ^ 1023 < overflow_threshold"
  by (simp add: overflow_threshold_def)

lemma overflow_threshold_pos: "0 < overflow_threshold"
  using overflow_threshold_gt by (rule order.strict_trans[rotated]) simp

lemma rnd_Fin: "\<bar>r\<bar> < overflow_threshold \<Longrightarrow> rnd r = Fin r"
  by (auto simp: rnd_def)

lemma rnd_small: "\<bar>r\<bar> \<le> 2 ^ 64 \<Longrightarrow> rnd r = Fin r"
proof (rule rnd_Fin)
  assume "\<bar>r\<bar> \<le> 2 ^ 64"
  moreover have "(2::real) ^ 64 < 2 ^ 1023" by simp
  ultimately show "\<bar>r\<bar> < overflow_threshold"
    using overflow_threshold_gt by linarith
qed

lemma rnd_not_NaN: "rnd r \<noteq> NaN"
  by (simp add: rnd_def)

lemma rnd_nonneg: "0 \<le> r \<Longrightarrow> rnd r = PosInf \<or> rnd r = Fin r"
  using overflow_threshold_pos by (auto simp: rnd_def)

lemma rnd_pos: "0 < r \<Longrightarrow> rnd r \<noteq> Fin 0"
  using overflow_threshold_pos by (auto simp: rnd_def)

lemma rnd_neg: "rnd (- r) = nneg (rnd r)"
  using overflow_threshold_pos by (auto simp: rnd_def)

lemma nneg_not_NaN: "x \<noteq> NaN \<Longrightarrow> nneg x \<noteq> NaN"
  by (cases x) simp_all

lemma nadd_Fin_not_NaN: "x \<noteq> NaN \<Longrightarrow> nadd (Fin c) x \<noteq> NaN"
  by (cases x) (simp_all add: rnd_not_NaN)

lemma nmul_Fin_not_NaN: "c \<noteq> 0 \<Longrightarrow> x \<noteq> NaN \<Longrightarrow> nmul (Fin c) x \<noteq> NaN"
  by (cases x) (simp_all add: rnd_not_NaN)

lemma ndiv_Fin_not_NaN: "c \<noteq> 0 \<Longrightarrow> x \<noteq> NaN \<Longrightarrow> ndiv x (Fin c) \<noteq> NaN"
  by (cases x) (simp_all add: rnd_not_NaN)

lemma nmul_neg: "nmul (Fin (- a)) x = nneg (nmul (Fin a) x)"
  by (cases x) (auto simp: rnd_neg)

lemma ndiv_neg: "x \<noteq> Fin 0 \<Longrightarrow> ndiv (Fin t) (nneg x) = nneg (ndiv (Fin t) x)"
  by (cases x) (auto simp: rnd_neg)

lemma Math_pow2_neg: "Math_pow2 (nneg x) = Math_pow2 x"
  by (cases x) auto

lemma Math_abs_sign: "Math_abs x = NaN \<or> nge (Math_abs x) (Fin 0)"
  by (cases x) (auto simp: nge_def)

section \<open>The projection of latitudes\<close>

lemma log_ratio_not_NaN:
  assumes "0 \<le> a" "0 \<le> b" "a \<noteq> 0 \<or> b \<noteq> 0"
  shows "Math_log (ndiv (Fin a) (Fin b)) \<noteq> NaN"
proof (cases "b = 0")
  case True
  with assms show ?thesis by simp
next
  case False
  from assms have "0 \<le> a / b" by simp
  then have "rnd (a / b) = PosInf \<or> rnd (a / b) = Fin (a / b)" by (rule rnd_nonneg)
  with False \<open>0 \<le> a / b\<close> show ?thesis by (auto split: if_splits)
qed

lemma clamp_unit:
  "y2 \<noteq> NaN \<Longrightarrow>
   \<exists>r. (if nlt y2 (Fin 0) then Fin 0 else if ngt y2 (Fin 1) then Fin 1 else y2) = Fin r
       \<and> 0 \<le> r \<and> r \<le> 1"
  by (cases y2) (auto simp: ngt_def)

lemma projectY_angle:
  assumes "\<bar>y\<bar> * pi < overflow_threshold"
  shows "ndiv (nmul (Fin y) Math_PI) (Fin 180) = Fin (y * pi / 180)"
proof -
  have "\<bar>y * pi\<bar> < overflow_threshold" using assms by (simp add: abs_mult)
  moreover have "\<bar>y * pi / 180\<bar> \<le> \<bar>y * pi\<bar>" by simp
  ultimately show ?thesis by (simp add: Math_PI_def rnd_Fin)
qed

lemma projectY_angle_small:
  assumes "\<bar>y\<bar> \<le> 2 ^ 64"
  shows "ndiv (nmul (Fin y) Math_PI) (Fin 180) = Fin (y * pi / 180)"
proof (rule projectY_angle)
  have "\<bar>y\<bar> * pi \<le> 2 ^ 64 * 4"
    using assms pi_less_4 by (intro mult_mono) simp_all
  moreover have "(2::real) ^ 64 * 4 < 2 ^ 1023" by simp
  ultimately show "\<bar>y\<bar> * pi < overflow_threshold"
    using overflow_threshold_gt by linarith
qed

lemma one_plus_minus:
  assumes "- 1 \<le> s" "s \<le> 1"
  shows "nadd (Fin 1) (Fin s) = Fin (1 + s)" "nsub (Fin 1) (Fin s) = Fin (1 - s)"
  using assms by (simp_all add: nsub_def rnd_small)

lemma projectY_range:
  assumes "\<bar>y\<bar> * pi < overflow_threshold"
  shows "\<exists>r. projectY (Fin y) = Fin r \<and> 0 \<le> r \<and> r \<le> 1"
proof -
  define s where "s = sin (y * pi / 180)"
  have s: "- 1 \<le> s" "s \<le> 1" by (simp_all add: s_def)
  define l where "l = Math_log (ndiv (nadd (Fin 1) (Fin s)) (nsub (Fin 1) (Fin s)))"
  have "l \<noteq> NaN"
    unfolding l_def one_plus_minus[OF s] using s by (intro log_ratio_not_NaN) auto
  then have "nsub (Fin (1/2)) (ndiv (nmul (Fin (1/4)) l) Math_PI) \<noteq> NaN"
    unfolding nsub_def Math_PI_def
    by (intro nadd_Fin_not_NaN nneg_not_NaN ndiv_Fin_not_NaN nmul_Fin_not_NaN) simp_all
  from clamp_unit[OF this] show ?thesis
    unfolding projectY_def projectY_angle[OF assms] Let_def l_def s_def Math_sin.simps .
qed

lemma projectY_equator: "projectY (Fin 0) = Fin (1/2)"
  by (simp add: projectY_def projectY_angle_small rnd_small nsub_def ngt_def Math_PI_def)

lemma projectY_north_pole: "projectY (Fin 90) = Fin 0"
proof -
  have "ndiv (nmul (Fin 90) Math_PI) (Fin 180) = Fin (pi / 2)"
    using projectY_angle_small[of 90] by simp
  then show ?thesis
    unfolding projectY_def by (simp add: rnd_small nsub_def ngt_def Math_PI_def)
qed

lemma projectY_south_pole: "projectY (Fin (- 90)) = Fin 1"
proof -
  have "ndiv (nmul (Fin (- 90)) Math_PI) (Fin 180) = Fin (- (pi / 2))"
    using projectY_angle_small[of "- 90"] by simp
  then show ?thesis
    unfolding projectY_def by (simp add: rnd_small nsub_def ngt_def Math_PI_def)
qed

lemma projectY_huge: "projectY (Fin (2 ^ 1023)) = NaN"
proof -
  have "(2::real) ^ 1024 \<le> 2 ^ 1023 * pi" using pi_ge_two by simp
  moreover have "overflow_threshold \<le> 2 ^ 1024" by (simp add: overflow_threshold_def)
  ultimately have "overflow_threshold \<le> 2 ^ 1023 * pi" by linarith
  then have "nmul (Fin (2 ^ 1023)) Math_PI = PosInf" by (simp add: Math_PI_def rnd_def)
  then show ?thesis by (simp add: projectY_def nsub_def ngt_def)
qed

text \<open>
  C9, as the spec states it: \<open>projectY\<close> maps every finite latitude into \<open>[0, 1]\<close>. It
  fails at the finite latitude \<open>2^1023\<close>: the product with \<open>Math.PI\<close> overflows to
  \<open>Infinity\<close>, whose sine is \<open>NaN\<close>, and \<open>NaN\<close> passes both comparisons of the clamp.
\<close>

theorem projectY_total_counterexample:
  "\<bar>2 ^ 1023\<bar> < overflow_threshold \<and> projectY (Fin (2 ^ 1023)) = NaN"
proof (intro conjI)
  have "\<bar>(2::real) ^ 1023\<bar> = 2 ^ 1023" by (rule abs_of_nonneg) (rule zero_le_power, simp)
  then show "\<bar>(2::real) ^ 1023\<bar> < overflow_threshold"
    using overflow_threshold_gt by (simp only:)
  show "projectY (Fin (2 ^ 1023)) = NaN" by (rule projectY_huge)
qed

text \<open>
  C9, amended: for every finite latitude \<open>y\<close> whose product with \<open>pi\<close> stays below the
  overflow threshold, \<open>projectY y\<close> is a finite number of the closed interval \<open>[0, 1]\<close>;
  the poles, where the unclamped formula diverges, give exactly 0 (at 90 degrees) and
  1 (at -90 degrees), and \<open>projectY 0 = 0.5\<close>.
\<close>

theorem projectY_clamped:
  "(\<bar>y\<bar> * pi < overflow_threshold \<longrightarrow> (\<exists>r. projectY (Fin y) = Fin r \<and> 0 \<le> r \<and> r \<le> 1))
   \<and> projectY (Fin 90) = Fin 0 \<and> projectY (Fin (- 90)) = Fin 1
   \<and> projectY (Fin 0) = Fin (1/2)"
  using projectY_range projectY_north_pole projectY_south_pole projectY_equator by blast

theorem projectY_clamped_witness:
  "\<bar>45\<bar> * pi < overflow_threshold \<and> (\<exists>r. projectY (Fin 45) = Fin r \<and> 0 \<le> r \<and> r \<le> 1)"
proof -
  have "\<bar>45\<bar> * pi \<le> 45 * 4" using pi_less_4 by simp
  moreover have "(45::real) * 4 < 2 ^ 1023" by simp
  ultimately have h: "\<bar>45\<bar> * pi < overflow_threshold"
    using overflow_threshold_gt by linarith
  with projectY_clamped[of 45] show ?thesis by blast
qed

section \<open>Flattening a ring or line\<close>

lemma js_set_length: "0 \<le> i \<Longrightarrow> nat i < length xs \<Longrightarrow> length (js_set xs i v) = length xs"
  by (simp add: js_set_def)

lemma js_set_nth: "0 \<le> i \<Longrightarrow> js_set xs i v ! nat i = Some v"
  by (simp add: js_set_def nth_append)

lemma js_set_other:
  "0 \<le> i \<Longrightarrow> nat i < length xs \<Longrightarrow> j \<noteq> nat i \<Longrightarrow> js_set xs i v ! j = xs ! j"
  by (simp add: js_set_def)

lemma convertLine_loop_length:
  "length (fst (convertLine_loop ring prev isPolygon out sz)) = length out + 3 * length ring"
  by (induction ring arbitrary: prev out sz) (simp_all add: Let_def)

lemma convertLine_loop_Some:
  "convertLine_loop (p # ring) (Some v) isPolygon out sz =
     convertLine_loop ring (Some (project p)) isPolygon
       (out @ [Some (fst (project p)), Some (snd (project p)), Some (Fin 0)])
       (nadd sz (metric_step isPolygon v (project p)))"
  by (cases v) (simp add: Let_def project_def)

lemma convertLine_loop_None:
  "convertLine_loop (p # ring) None isPolygon out sz =
     convertLine_loop ring (Some (project p)) isPolygon
       (out @ [Some (fst (project p)), Some (snd (project p)), Some (Fin 0)]) sz"
  by (simp add: Let_def project_def)

lemma convertLine_loop_metric_Some:
  "snd (convertLine_loop ring (Some v) isPolygon out sz) =
     running_metric isPolygon sz (v # map project ring)"
proof (induction ring arbitrary: v out sz)
  case Nil
  show ?case by simp
next
  case (Cons p ring)
  show ?case
    unfolding convertLine_loop_Some Cons.IH by simp
qed

lemma convertLine_loop_metric:
  "snd (convertLine_loop ring None isPolygon out sz) =
     running_metric isPolygon sz (map project ring)"
proof (cases ring)
  case Nil
  then show ?thesis by simp
next
  case (Cons p ring')
  then show ?thesis
    unfolding Cons convertLine_loop_None convertLine_loop_metric_Some by simp
qed

lemma convertLine_size:
  "line_size (convertLine simplify ring out tol isPolygon) =
     Math_abs (running_metric isPolygon (Fin 0) (map project ring))"
  using convertLine_loop_metric[of ring isPolygon out "Fin 0"]
  by (simp add: convertLine_def Let_def case_prod_beta)

lemma convertLine_start_end:
  "line_start (convertLine simplify ring out tol isPolygon) = Fin 0"
  "line_end (convertLine simplify ring out tol isPolygon) =
     line_size (convertLine simplify ring out tol isPolygon)"
  by (simp_all add: convertLine_def Let_def case_prod_beta)

lemma convertLine_coords:
  "coords (convertLine simplify ring [] tol isPolygon) =
     js_set (simplify (js_set (fst (convertLine_loop ring None isPolygon [] (Fin 0))) 2 (Fin 1))
               0 (int (3 * length ring) - 3) tol)
       (int (3 * length ring) - 1) (Fin 1)"
  using convertLine_loop_length[of ring None isPolygon "[]" "Fin 0"]
  by (simp add: convertLine_def Let_def case_prod_beta)

lemma keep_all_contract: "simplifier_contract keep_all"
  by (simp add: simplifier_contract_def keep_all_def)

lemma convertLine_endpoints:
  assumes "simplifier_contract simplify" "1 \<le> length ring"
  shows "length (coords (convertLine simplify ring [] tol isPolygon)) = 3 * length ring"
    and "coords (convertLine simplify ring [] tol isPolygon) ! 2 = Some (Fin 1)"
    and "coords (convertLine simplify ring [] tol isPolygon) ! (3 * length ring - 1) = Some (Fin 1)"
proof -
  define n where "n = 3 * length ring"
  define out1 where "out1 = fst (convertLine_loop ring None isPolygon [] (Fin 0))"
  define out2 where "out2 = js_set out1 2 (Fin 1)"
  define out3 where "out3 = simplify out2 0 (int n - 3) tol"
  define out4 where "out4 = js_set out3 (int n - 1) (Fin 1)"
  have n: "3 \<le> n" using assms(2) by (simp add: n_def)
  have l1: "length out1 = n"
    using convertLine_loop_length[of ring None isPolygon "[]" "Fin 0"] by (simp add: out1_def n_def)
  have l2: "length out2 = n"
    unfolding out2_def using js_set_length[of 2 out1 "Fin 1"] l1 n by simp
  have v2: "out2 ! 2 = Some (Fin 1)"
    unfolding out2_def using js_set_nth[of 2 out1 "Fin 1"] by simp
  from assms(1) have c: "length out3 = length out2"
    "\<And>i. i < length out2 \<Longrightarrow> int i = 0 + 2 \<Longrightarrow> out3 ! i = out2 ! i"
    unfolding simplifier_contract_def out3_def by blast+
  have l3: "length out3 = n" using c(1) l2 by simp
  have v3: "out3 ! 2 = Some (Fin 1)" using c(2)[of 2] l2 n v2 by simp
  have idx: "nat (int n - 1) = n - 1" "0 \<le> int n - 1" "nat (int n - 1) < length out3"
    using n l3 by simp_all
  have l4: "length out4 = n"
    unfolding out4_def using js_set_length[OF idx(2,3)] l3 by simp
  have last: "out4 ! (n - 1) = Some (Fin 1)"
    unfolding out4_def using js_set_nth[OF idx(2), of out3 "Fin 1"] idx(1) by simp
  have first: "out4 ! 2 = Some (Fin 1)"
  proof (cases "n - 1 = 2")
    case True
    with last show ?thesis by simp
  next
    case False
    then have "2 \<noteq> nat (int n - 1)" using idx(1) by simp
    from js_set_other[OF idx(2,3) this] v3 show ?thesis by (simp add: out4_def)
  qed
  have eq: "coords (convertLine simplify ring [] tol isPolygon) = out4"
    unfolding convertLine_coords out4_def out3_def out2_def out1_def n_def by simp
  show "length (coords (convertLine simplify ring [] tol isPolygon)) = 3 * length ring"
    using l4 by (simp add: eq n_def)
  show "coords (convertLine simplify ring [] tol isPolygon) ! 2 = Some (Fin 1)"
    using first by (simp add: eq)
  show "coords (convertLine simplify ring [] tol isPolygon) ! (3 * length ring - 1) = Some (Fin 1)"
    using last by (simp add: eq n_def)
qed

text \<open>
  C3: for a coordinate sequence of length at least 2, every tolerance (0 included) and
  every simplifier that meets its contract, the flattened ring or line has three slots
  per coordinate, and the significance slot of its first vertex (index 2) and of its last
  vertex (the last index) both hold 1.
\<close>

theorem endpoints_pinned:
  assumes "simplifier_contract simplify" "2 \<le> length ring"
  shows "length (coords (convertLine simplify ring [] tol isPolygon)) = 3 * length ring
     \<and> coords (convertLine simplify ring [] tol isPolygon) ! 2 = Some (Fin 1)
     \<and> coords (convertLine simplify ring [] tol isPolygon) ! (3 * length ring - 1) = Some (Fin 1)"
  using convertLine_endpoints[OF assms(1), of ring tol isPolygon] assms(2) by simp

theorem endpoints_pinned_witness:
  "simplifier_contract keep_all \<and> 2 \<le> length [[Fin 0, Fin 0], [Fin 90, Fin 0], [Fin 180, Fin 0]]
   \<and> coords (convertLine keep_all [[Fin 0, Fin 0], [Fin 90, Fin 0], [Fin 180, Fin 0]] [] (Fin 0) False) ! 2
       = Some (Fin 1)
   \<and> coords (convertLine keep_all [[Fin 0, Fin 0], [Fin 90, Fin 0], [Fin 180, Fin 0]] [] (Fin 0) False) ! 8
       = Some (Fin 1)"
  using endpoints_pinned[OF keep_all_contract,
      of "[[Fin 0, Fin 0], [Fin 90, Fin 0], [Fin 180, Fin 0]]" "Fin 0" False]
  by (simp add: keep_all_contract)

text \<open>
  C10: a line or ring of exactly one coordinate flattens to one vertex whose significance
  is 1: slot 2 holds 1 whatever the simplifier does, since it is written after the
  simplifier has run, and the buffer has the three slots of one vertex with every
  simplifier that meets its contract. The single vertex that \<open>convertPoint\<close> flattens a
  point to has significance 0.
\<close>

theorem single_vertex_significance:
  "coords (convertLine simplify [p] [] tol isPolygon) ! 2 = Some (Fin 1)
   \<and> (simplifier_contract simplify \<longrightarrow>
        length (coords (convertLine simplify [p] [] tol isPolygon)) = 3)
   \<and> length (convertPoint p []) = 3 \<and> convertPoint p [] ! 2 = Fin 0"
proof (intro conjI impI)
  show "coords (convertLine simplify [p] [] tol isPolygon) ! 2 = Some (Fin 1)"
    unfolding convertLine_coords
    using js_set_nth[of 2 _ "Fin 1"] by simp
  show "length (coords (convertLine simplify [p] [] tol isPolygon)) = 3"
    if "simplifier_contract simplify"
    using convertLine_endpoints(1)[OF that, of "[p]" tol isPolygon] by simp
  show "length (convertPoint p []) = 3" "convertPoint p [] ! 2 = Fin 0"
    by (simp_all add: convertPoint_def)
qed

theorem single_vertex_significance_witness:
  "simplifier_contract keep_all
   \<and> coords (convertLine keep_all [[Fin 0, Fin 0]] [] (Fin 0) False)
       = [Some (Fin (1/2)), Some (Fin (1/2)), Some (Fin 1)]
   \<and> convertPoint [Fin 0, Fin 0] [] = [Fin (1/2), Fin (1/2), Fin 0]"
  using single_vertex_significance[of keep_all "[Fin 0, Fin 0]" "Fin 0" False]
  by (simp add: keep_all_contract convertLine_def convertPoint_def keep_all_def js_set_def
      projectX_def projectY_equator coord_def rnd_small)

section \<open>The metric of a ring or line\<close>

lemma square_metric:
  "Math_abs (running_metric True (Fin 0)
     [(Fin 0, Fin 0), (Fin 0, Fin 10), (Fin 10, Fin 10), (Fin 10, Fin 0), (Fin 0, Fin 0)]) = Fin 100"
  by (simp add: nsub_def rnd_small)

text \<open>
  C8, as the spec states it: the metric is always at least 0. It fails for the ring
  \<open>[[0, 2^1023], [0, 0]]\<close>: the first latitude projects to \<open>NaN\<close>, the shoelace sum is
  \<open>NaN\<close>, and so is its absolute value, which is not at least 0.
\<close>

theorem metric_counterexample:
  "line_size (convertLine keep_all [[Fin 0, Fin (2 ^ 1023)], [Fin 0, Fin 0]] [] (Fin 0) True) = NaN
   \<and> \<not> nge NaN (Fin 0)"
  by (simp add: convertLine_size project_def coord_def projectX_def projectY_huge[simplified]
      projectY_equator nsub_def rnd_small nge_def)

text \<open>
  C8, amended: the metric stored on a flattened ring or line is the absolute value of the
  running sum (the signed shoelace contributions for a ring, the Euclidean distances for
  a line, over the projected vertices in order), so it is never negative: it is at least
  0 or it is \<open>NaN\<close>; \<open>start\<close> is 0 and \<open>end\<close> is the metric. The square ring of the
  spec, in projected units, has metric 100.
\<close>

theorem metric_absolute:
  "line_size (convertLine simplify ring out tol isPolygon)
     = Math_abs (running_metric isPolygon (Fin 0) (map project ring))
   \<and> (line_size (convertLine simplify ring out tol isPolygon) = NaN
      \<or> nge (line_size (convertLine simplify ring out tol isPolygon)) (Fin 0))
   \<and> line_start (convertLine simplify ring out tol isPolygon) = Fin 0
   \<and> line_end (convertLine simplify ring out tol isPolygon)
     = line_size (convertLine simplify ring out tol isPolygon)
   \<and> Math_abs (running_metric True (Fin 0)
        [(Fin 0, Fin 0), (Fin 0, Fin 10), (Fin 10, Fin 10), (Fin 10, Fin 0), (Fin 0, Fin 0)])
     = Fin 100"
  using Math_abs_sign[of "running_metric isPolygon (Fin 0) (map project ring)"]
  by (simp only: convertLine_size convertLine_start_end square_metric simp_thms)

theorem metric_absolute_witness:
  "line_size (convertLine keep_all [[Fin 0, Fin 0], [Fin 180, Fin 0], [Fin 0, Fin 0]] [] (Fin 0) True)
     = Fin 0
   \<and> line_size (convertLine keep_all [[Fin 0, Fin 0], [Fin 180, Fin 0]] [] (Fin 0) False)
     = Fin (1/2)"
proof -
  have "sqrt (1 / 4) = 1 / 2"
    by (rule real_sqrt_unique) (simp_all add: power2_eq_square)
  then show ?thesis
    using metric_absolute[of keep_all "[[Fin 0, Fin 0], [Fin 180, Fin 0], [Fin 0, Fin 0]]"
        "[]" "Fin 0" True]
      metric_absolute[of keep_all "[[Fin 0, Fin 0], [Fin 180, Fin 0]]" "[]" "Fin 0" False]
    by (simp add: project_def coord_def projectX_def projectY_equator nsub_def rnd_small)
qed

section \<open>Converting features\<close>

declare convertFeature.simps [simp del]

lemma foldl_push: "foldl (\<lambda>acc x. acc @ [f x]) acc xs = acc @ map f xs"
  by (induction xs arbitrary: acc) simp_all

lemma convertLines_map:
  "convertLines simplify rings out tol isPolygon =
     out @ map (\<lambda>ring. convertLine simplify ring [] tol isPolygon) rings"
  by (induction rings arbitrary: out) simp_all

lemma resolveId_child:
  "resolveId geojson opts index = Inr i \<Longrightarrow>
   resolveId \<lparr>feature_id = i, geometry = g, properties = properties geojson\<rparr> opts index = Inr i"
  by (auto simp: resolveId_def split: option.splits if_splits)

lemma convertFeature_no_geometry:
  "geometry geojson = None \<Longrightarrow> convertFeature simplify features geojson opts index = Inr features"
  by (simp add: convertFeature.simps)

lemma convertFeature_id_error:
  "geometry geojson = Some g \<Longrightarrow> resolveId geojson opts index = Inl e \<Longrightarrow>
   convertFeature simplify features geojson opts index = Inl e"
  by (simp add: convertFeature.simps)

lemma convertFeature_single:
  assumes "geometry geojson = Some g" "resolveId geojson opts index = Inr i" "single_kind opts g"
  shows "\<exists>c. convertFeature simplify features geojson opts index =
     Inr (features @ [createFeature i (kind_of g) c (properties geojson)])"
  using assms by (cases g) (auto simp: convertFeature.simps)

lemma convertFeature_exploded:
  assumes "geometry geojson = Some (MultiLineString ls)" "resolveId geojson opts index = Inr i"
    "lineMetrics opts"
  shows "convertFeature simplify features geojson opts index =
     Inr (features @ map (\<lambda>line. createFeature i ''LineString''
            (Line (convertLine simplify line [] (sqTolerance opts) False)) (properties geojson)) ls)"
  using assms by (simp add: convertFeature.simps foldl_push)

lemma convertFeature_bundled:
  assumes "geometry geojson = Some (MultiLineString ls)" "resolveId geojson opts index = Inr i"
    "\<not> lineMetrics opts"
  shows "convertFeature simplify features geojson opts index =
     Inr (features @ [createFeature i ''MultiLineString''
            (Lines (map (\<lambda>line. convertLine simplify line [] (sqTolerance opts) False) ls))
            (properties geojson)])"
  using assms by (simp add: convertFeature.simps convertLines_map)

lemma convertFeature_collection:
  assumes "geometry geojson = Some (GeometryCollection gs)" "resolveId geojson opts index = Inr i"
  shows "convertFeature simplify features geojson opts index =
     convertFeature_each simplify features gs i (properties geojson) opts index"
  using assms by (simp add: convertFeature.simps)

lemma convertFeature_other:
  assumes "geometry geojson = Some (OtherGeometry s)" "resolveId geojson opts index = Inr i"
  shows "convertFeature simplify features geojson opts index =
     (if s \<in> set recognised then Inl TypeError else Inl UnsupportedGeometry)"
  using assms by (simp add: convertFeature.simps)


lemma convertFeature_cases:
  assumes "convertFeature simplify features geojson opts index = Inr out"
  obtains (absent) "geometry geojson = None" "out = features"
  | (single) g i c where "geometry geojson = Some g" "resolveId geojson opts index = Inr i"
      "single_kind opts g"
      "out = features @ [createFeature i (kind_of g) c (properties geojson)]"
  | (exploded) ls i where "geometry geojson = Some (MultiLineString ls)"
      "resolveId geojson opts index = Inr i" "lineMetrics opts"
      "out = features @ map (\<lambda>line. createFeature i ''LineString''
            (Line (convertLine simplify line [] (sqTolerance opts) False)) (properties geojson)) ls"
  | (collection) gs i where "geometry geojson = Some (GeometryCollection gs)"
      "resolveId geojson opts index = Inr i"
      "convertFeature_each simplify features gs i (properties geojson) opts index = Inr out"
proof (cases "geometry geojson")
  case None
  with assms absent show ?thesis by (simp add: convertFeature_no_geometry)
next
  case (Some g)
  show ?thesis
  proof (cases "resolveId geojson opts index")
    case (Inl e)
    with Some assms show ?thesis by (simp add: convertFeature_id_error)
  next
    case (Inr i)
    show ?thesis
    proof (cases "single_kind opts g")
      case True
      from convertFeature_single[OF Some Inr True, of simplify features] assms
      obtain c where "out = features @ [createFeature i (kind_of g) c (properties geojson)]"
        by auto
      with Some Inr True single show ?thesis by blast
    next
      case False
      then consider (mls) ls where "g = MultiLineString ls" "lineMetrics opts"
        | (gc) gs where "g = GeometryCollection gs"
        | (other) s where "g = OtherGeometry s"
        by (cases g) auto
      then show ?thesis
      proof cases
        case mls
        with Some Inr assms exploded show ?thesis
          by (simp add: convertFeature_exploded)
      next
        case gc
        with Some Inr assms collection show ?thesis
          by (simp add: convertFeature_collection)
      next
        case other
        with Some Inr assms show ?thesis
          by (simp add: convertFeature_other split: if_splits)
      qed
    qed
  qed
qed

lemma kind_of_single:
  "single_kind opts g \<Longrightarrow> kind_of g \<in> set recognised \<and> kind_of g \<noteq> ''GeometryCollection''"
  by (cases g) (simp_all add: recognised_def)

lemma emitted:
  "convertFeature simplify features geojson opts index = Inr out \<Longrightarrow>
     \<exists>new. out = features @ new \<and>
       (\<forall>f \<in> set new. resolveId geojson opts index = Inr (pf_id f)
          \<and> pf_tags f = properties geojson
          \<and> pf_type f \<in> set recognised \<and> pf_type f \<noteq> ''GeometryCollection'')"
  and
  "convertFeature_each simplify features gs i ps opts index = Inr out \<Longrightarrow>
     (\<And>g. resolveId \<lparr>feature_id = i, geometry = g, properties = ps\<rparr> opts index = Inr i) \<Longrightarrow>
     \<exists>new. out = features @ new \<and>
       (\<forall>f \<in> set new. pf_id f = i \<and> pf_tags f = ps
          \<and> pf_type f \<in> set recognised \<and> pf_type f \<noteq> ''GeometryCollection'')"
proof (induction simplify features geojson opts index and simplify features gs i ps opts index
    arbitrary: out and out rule: convertFeature_convertFeature_each.induct)
  case (1 simplify features geojson opts index)
  from "1.prems" show ?case
  proof (cases rule: convertFeature_cases)
    case absent
    then show ?thesis by simp
  next
    case (single g i c)
    then show ?thesis
      using kind_of_single[of opts g] by (simp add: createFeature_def)
  next
    case (exploded ls i)
    then show ?thesis by (auto simp: createFeature_def recognised_def)
  next
    case (collection gs i)
    from "1.IH"[OF collection(1,2) refl collection(3)] resolveId_child[OF collection(2)]
    obtain new where "out = features @ new"
      "\<forall>f \<in> set new. pf_id f = i \<and> pf_tags f = properties geojson
          \<and> pf_type f \<in> set recognised \<and> pf_type f \<noteq> ''GeometryCollection''"
      by blast
    with collection(2) show ?thesis by auto
  qed
next
  case (2 simplify features i ps opts index)
  then show ?case by simp
next
  case (3 simplify features g gs i ps opts index)
  let ?child = "\<lparr>feature_id = i, geometry = Some g, properties = ps\<rparr>"
  from "3.prems"(1) obtain b where b: "convertFeature simplify features ?child opts index = Inr b"
    and rest: "convertFeature_each simplify b gs i ps opts index = Inr out"
    by (auto split: sum.splits)
  from "3.IH"(1)[OF b] "3.prems"(2)[of "Some g"]
  obtain new1 where n1: "b = features @ new1"
    "\<forall>f \<in> set new1. pf_id f = i \<and> pf_tags f = ps
        \<and> pf_type f \<in> set recognised \<and> pf_type f \<noteq> ''GeometryCollection''"
    by auto
  from "3.IH"(2)[OF b rest "3.prems"(2)]
  obtain new2 where n2: "out = b @ new2"
    "\<forall>f \<in> set new2. pf_id f = i \<and> pf_tags f = ps
        \<and> pf_type f \<in> set recognised \<and> pf_type f \<noteq> ''GeometryCollection''"
    by blast
  from n1 n2 have "out = features @ (new1 @ new2)" by simp
  moreover from n1 n2 have "\<forall>f \<in> set (new1 @ new2). pf_id f = i \<and> pf_tags f = ps
        \<and> pf_type f \<in> set recognised \<and> pf_type f \<noteq> ''GeometryCollection''"
    by auto
  ultimately show ?case by blast
qed

section \<open>The squared tolerance\<close>

lemma sint_push_bit_1:
  assumes "k < 31"
  shows "sint (push_bit k (1 :: 32 word)) = 2 ^ k"
proof -
  have "sint (push_bit k (1 :: 32 word)) = signed_take_bit 31 (2 ^ k :: int)"
    using signed_push_bit_eq[of k "1 :: 32 word", where ?'a = int] by simp
  also have "\<dots> = 2 ^ k"
  proof (rule signed_take_bit_int_eq_self)
    show "- (2 ^ 31) \<le> (2::int) ^ k"
      by (rule order_trans[of _ 0]) simp_all
    show "(2::int) ^ k < 2 ^ 31" using assms by (rule power_strict_increasing) simp
  qed
  finally show ?thesis .
qed

lemma shl1_cases:
  "shl1 n = (if n mod 32 = 31 then - (2 ^ 31) else 2 ^ nat (n mod 32))"
proof (cases "n mod 32 = 31")
  case True
  then show ?thesis by (simp add: shl1_def)
next
  case False
  have "n mod 32 < 32" by simp
  with False have "nat (n mod 32) < 31" by linarith
  with False show ?thesis unfolding shl1_def by (simp only: sint_push_bit_1 if_False)
qed

lemma convertLine_tolerance:
  "convertLine simplify ring out tol isPolygon =
     convertLine (\<lambda>buf first last t. simplify buf first last tol) ring out tol isPolygon"
  by (simp add: convertLine_def)

lemma convertLines_tolerance:
  "convertLines simplify rings out tol isPolygon =
     convertLines (\<lambda>buf first last t. simplify buf first last tol) rings out tol isPolygon"
  by (simp add: convertLines_map convertLine_tolerance[of simplify])

lemma convertFeature_tolerance:
  "convertFeature simplify features geojson opts index =
     convertFeature (\<lambda>buf first last t. simplify buf first last (sqTolerance opts))
       features geojson opts index"
  and
  "convertFeature_each simplify features gs i ps opts index =
     convertFeature_each (\<lambda>buf first last t. simplify buf first last (sqTolerance opts))
       features gs i ps opts index"
proof (induction simplify features geojson opts index and simplify features gs i ps opts index
    rule: convertFeature_convertFeature_each.induct)
  case (1 simplify features geojson opts index)
  let ?s = "\<lambda>buf first last t. simplify buf first last (sqTolerance opts)"
  show ?case
  proof (cases "geometry geojson")
    case None
    then show ?thesis by (simp add: convertFeature_no_geometry)
  next
    case (Some g)
    show ?thesis
    proof (cases "resolveId geojson opts index")
      case (Inl e)
      with Some show ?thesis by (simp add: convertFeature_id_error)
    next
      case (Inr i)
      show ?thesis
      proof (cases g)
        case (GeometryCollection gs)
        with Some have geo: "geometry geojson = Some (GeometryCollection gs)" by simp
        from "1.IH"[OF geo Inr refl] show ?thesis
          by (simp add: convertFeature_collection[OF geo Inr])
      qed (use Some Inr in \<open>simp_all add: convertFeature.simps
            convertLine_tolerance[of simplify] convertLines_tolerance[of simplify]\<close>)
    qed
  qed
next
  case (2 simplify features i ps opts index)
  show ?case by simp
next
  case (3 simplify features g gs i ps opts index)
  then show ?case by (simp split: sum.splits)
qed

lemma convertFeatures_loop_tolerance:
  "convertFeatures_loop simplify acc fs n opts =
     convertFeatures_loop (\<lambda>buf first last t. simplify buf first last (sqTolerance opts))
       acc fs n opts"
proof (induction fs arbitrary: acc n)
  case Nil
  show ?case by simp
next
  case (Cons x fs)
  show ?case
    using Cons.IH convertFeature_tolerance(1)[of simplify acc x opts "Some n"]
    by (simp split: sum.splits)
qed

lemma convertFeatures_tolerance:
  "convertFeatures simplify data opts =
     convertFeatures (\<lambda>buf first last t. simplify buf first last (sqTolerance opts)) data opts"
  using convertFeatures_loop_tolerance[of simplify "[]" _ 0 opts]
    convertFeature_tolerance(1)[of simplify "[]" _ opts None]
  by (cases data) (simp_all add: convertFeatures_def)

text \<open>
  C2, as the spec states it: the squared tolerance is
  \<open>(tolerance / (2^maxZoom * extent))^2\<close> for every non-negative integer \<open>maxZoom\<close>. It
  fails at \<open>maxZoom = 32\<close>, where \<open>1 << 32\<close> is 1: with \<open>tolerance = 3\<close> and
  \<open>extent = 4096\<close> the code computes \<open>(3 / 4096)^2\<close>.
\<close>

theorem sqTolerance_counterexample:
  "sqTolerance \<lparr>maxZoom = 32, tolerance = Fin 3, extent = Fin 4096, lineMetrics = False,
      promoteId = None, generateId = False\<rparr> = Fin (9 / 16777216)
   \<and> spec_sqTolerance \<lparr>maxZoom = 32, tolerance = Fin 3, extent = Fin 4096, lineMetrics = False,
      promoteId = None, generateId = False\<rparr> = Fin (9 / 2 ^ 88)"
  by (simp add: sqTolerance_def spec_sqTolerance_def shl1_def rnd_small)

text \<open>
  C2, amended: for every integer \<open>maxZoom\<close>, positive extent and non-negative tolerance,
  the squared tolerance of line 62 is \<open>(tolerance / (2^(maxZoom mod 32) * extent))^2\<close>:
  the spec's formula with the exponent taken modulo 32, which is the spec's formula
  itself for \<open>maxZoom\<close> from 0 to 31. It is the tolerance used for every ring and line of
  a convert call: the call returns the same with a simplifier that is handed this value
  whatever tolerance it is called with.
\<close>

theorem sqTolerance_mod32:
  assumes "tolerance opts = Fin t" "0 \<le> t" "extent opts = Fin e" "0 < e"
  shows "sqTolerance opts = spec_sqTolerance (opts\<lparr>maxZoom := maxZoom opts mod 32\<rparr>)
     \<and> (0 \<le> maxZoom opts \<and> maxZoom opts \<le> 31 \<longrightarrow> sqTolerance opts = spec_sqTolerance opts)
     \<and> convertFeatures simplify data opts =
         convertFeatures (\<lambda>buf first last t. simplify buf first last
           (spec_sqTolerance (opts\<lparr>maxZoom := maxZoom opts mod 32\<rparr>))) data opts"
proof -
  have main: "sqTolerance opts = spec_sqTolerance (opts\<lparr>maxZoom := maxZoom opts mod 32\<rparr>)"
  proof (cases "maxZoom opts mod 32 = 31")
    case False
    then show ?thesis by (simp add: sqTolerance_def spec_sqTolerance_def shl1_cases)
  next
    case True
    define d where "d = nmul (Fin (2 ^ 31)) (Fin e)"
    have "d \<noteq> Fin 0" using assms(4) unfolding d_def nmul.simps by (intro rnd_pos) simp
    then have "ndiv (Fin t) (nneg d) = nneg (ndiv (Fin t) d)"
      by (rule ndiv_neg)
    then have "Math_pow2 (ndiv (Fin t) (nneg d)) = Math_pow2 (ndiv (Fin t) d)"
      by (simp only: Math_pow2_neg)
    moreover have "nmul (Fin (- (2 ^ 31))) (Fin e) = nneg d"
      unfolding d_def by (rule nmul_neg)
    moreover have "real_of_int (shl1 (maxZoom opts)) = - (2 ^ 31)"
      using True by (simp add: shl1_cases)
    moreover have "(2::real) ^ nat (maxZoom opts mod 32) = 2 ^ 31"
      using True by simp
    moreover have "tolerance (opts\<lparr>maxZoom := maxZoom opts mod 32\<rparr>) = tolerance opts"
      "extent (opts\<lparr>maxZoom := maxZoom opts mod 32\<rparr>) = extent opts"
      "maxZoom (opts\<lparr>maxZoom := maxZoom opts mod 32\<rparr>) = maxZoom opts mod 32"
      by simp_all
    ultimately show ?thesis
      using assms(1,3) unfolding sqTolerance_def spec_sqTolerance_def d_def
      by (simp only:)
  qed
  have small: "sqTolerance opts = spec_sqTolerance opts"
    if "0 \<le> maxZoom opts \<and> maxZoom opts \<le> 31"
  proof -
    from that have "maxZoom opts mod 32 = maxZoom opts" by simp
    with main show ?thesis by simp
  qed
  have used: "convertFeatures simplify data opts =
      convertFeatures (\<lambda>buf first last t. simplify buf first last (sqTolerance opts)) data opts"
    by (rule convertFeatures_tolerance)
  show ?thesis
  proof (intro conjI impI)
    show "sqTolerance opts = spec_sqTolerance (opts\<lparr>maxZoom := maxZoom opts mod 32\<rparr>)"
      by (rule main)
    show "sqTolerance opts = spec_sqTolerance opts"
      if "0 \<le> maxZoom opts \<and> maxZoom opts \<le> 31"
      using that by (rule small)
    show "convertFeatures simplify data opts =
         convertFeatures (\<lambda>buf first last t. simplify buf first last
           (spec_sqTolerance (opts\<lparr>maxZoom := maxZoom opts mod 32\<rparr>))) data opts"
      using used unfolding main .
  qed
qed

theorem sqTolerance_mod32_witness:
  "sqTolerance \<lparr>maxZoom = 14, tolerance = Fin 3, extent = Fin 4096, lineMetrics = False,
      promoteId = None, generateId = False\<rparr>
   = spec_sqTolerance \<lparr>maxZoom = 14, tolerance = Fin 3, extent = Fin 4096, lineMetrics = False,
      promoteId = None, generateId = False\<rparr>"
  using sqTolerance_mod32[of "\<lparr>maxZoom = 14, tolerance = Fin 3, extent = Fin 4096,
      lineMetrics = False, promoteId = None, generateId = False\<rparr>" 3 4096]
  by simp

section \<open>The id of the emitted features\<close>

lemma convertFeatures_loop_parts:
  "convertFeatures_loop simplify acc fs n opts = Inr out \<Longrightarrow>
     \<exists>parts. length parts = length fs \<and> out = acc @ concat parts \<and>
       (\<forall>k < length fs. \<forall>f \<in> set (parts ! k).
          resolveId (fs ! k) opts (Some (n + k)) = Inr (pf_id f)
          \<and> pf_tags f = properties (fs ! k)
          \<and> pf_type f \<in> set recognised \<and> pf_type f \<noteq> ''GeometryCollection'')"
proof (induction fs arbitrary: acc n)
  case Nil
  then show ?case by simp
next
  case (Cons x fs)
  from Cons.prems obtain b where b: "convertFeature simplify acc x opts (Some n) = Inr b"
    and rest: "convertFeatures_loop simplify b fs (Suc n) opts = Inr out"
    by (auto split: sum.splits)
  from emitted(1)[OF b] obtain new where new: "b = acc @ new"
    "\<forall>f \<in> set new. resolveId x opts (Some n) = Inr (pf_id f) \<and> pf_tags f = properties x
        \<and> pf_type f \<in> set recognised \<and> pf_type f \<noteq> ''GeometryCollection''"
    by blast
  from Cons.IH[OF rest] obtain parts where parts: "length parts = length fs"
    "out = b @ concat parts"
    "\<forall>k < length fs. \<forall>f \<in> set (parts ! k).
        resolveId (fs ! k) opts (Some (Suc n + k)) = Inr (pf_id f)
        \<and> pf_tags f = properties (fs ! k)
        \<and> pf_type f \<in> set recognised \<and> pf_type f \<noteq> ''GeometryCollection''"
    by blast
  have "\<forall>k < length (x # fs). \<forall>f \<in> set ((new # parts) ! k).
          resolveId ((x # fs) ! k) opts (Some (n + k)) = Inr (pf_id f)
          \<and> pf_tags f = properties ((x # fs) ! k)
          \<and> pf_type f \<in> set recognised \<and> pf_type f \<noteq> ''GeometryCollection''"
  proof (intro allI impI)
    fix k assume "k < length (x # fs)"
    then show "\<forall>f \<in> set ((new # parts) ! k).
          resolveId ((x # fs) ! k) opts (Some (n + k)) = Inr (pf_id f)
          \<and> pf_tags f = properties ((x # fs) ! k)
          \<and> pf_type f \<in> set recognised \<and> pf_type f \<noteq> ''GeometryCollection''"
      using new(2) parts(3) by (cases k) simp_all
  qed
  moreover have "length (new # parts) = length (x # fs)" using parts(1) by simp
  moreover have "out = acc @ concat (new # parts)" using new(1) parts(2) by simp
  ultimately show ?case by blast
qed

lemma convertFeatures_parts:
  assumes "convertFeatures simplify data opts = Inr out"
  shows "\<exists>parts. length parts = length (features_of data) \<and> out = concat parts \<and>
       (\<forall>k < length parts. \<forall>f \<in> set (parts ! k).
          resolveId (features_of data ! k) opts (Some k) = Inr (pf_id f)
          \<and> pf_tags f = properties (features_of data ! k)
          \<and> pf_type f \<in> set recognised \<and> pf_type f \<noteq> ''GeometryCollection'')"
proof (cases data)
  case (FeatureCollection fs)
  with assms have "convertFeatures_loop simplify [] fs 0 opts = Inr out"
    by (simp add: convertFeatures_def)
  from convertFeatures_loop_parts[OF this] FeatureCollection show ?thesis by auto
next
  case (Feature x)
  with assms have "convertFeature simplify [] x opts None = Inr out"
    by (simp add: convertFeatures_def)
  from emitted(1)[OF this] have "\<forall>f \<in> set out. resolveId x opts None = Inr (pf_id f)
      \<and> pf_tags f = properties x \<and> pf_type f \<in> set recognised \<and> pf_type f \<noteq> ''GeometryCollection''"
    by simp
  moreover have "resolveId x opts (Some 0) = resolveId x opts None"
    by (simp add: resolveId_def split: option.splits)
  ultimately have "length [out] = length (features_of data) \<and> out = concat [out] \<and>
       (\<forall>k < length [out]. \<forall>f \<in> set ([out] ! k).
          resolveId (features_of data ! k) opts (Some k) = Inr (pf_id f)
          \<and> pf_tags f = properties (features_of data ! k)
          \<and> pf_type f \<in> set recognised \<and> pf_type f \<noteq> ''GeometryCollection'')"
    using Feature by simp
  then show ?thesis by blast
next
  case (Geometry g)
  let ?x = "\<lparr>feature_id = None, geometry = Some g, properties = None\<rparr>"
  from Geometry assms have "convertFeature simplify [] ?x opts None = Inr out"
    by (simp add: convertFeatures_def)
  from emitted(1)[OF this] have "\<forall>f \<in> set out. resolveId ?x opts None = Inr (pf_id f)
      \<and> pf_tags f = properties ?x \<and> pf_type f \<in> set recognised \<and> pf_type f \<noteq> ''GeometryCollection''"
    by simp
  moreover have "resolveId ?x opts (Some 0) = resolveId ?x opts None"
    by (simp add: resolveId_def split: option.splits)
  ultimately have "length [out] = length (features_of data) \<and> out = concat [out] \<and>
       (\<forall>k < length [out]. \<forall>f \<in> set ([out] ! k).
          resolveId (features_of data ! k) opts (Some k) = Inr (pf_id f)
          \<and> pf_tags f = properties (features_of data ! k)
          \<and> pf_type f \<in> set recognised \<and> pf_type f \<noteq> ''GeometryCollection'')"
    using Geometry by simp
  then show ?thesis by blast
qed





section \<open>Multi-lines, missing geometries and collections\<close>

lemma resolveId_total:
  "promote_key opts = None \<or> properties geojson \<noteq> None \<Longrightarrow>
   \<exists>i. resolveId geojson opts index = Inr i"
  by (auto simp: resolveId_def split: option.splits)

text \<open>
  C5, as the spec states it: every MultiLineString feature of \<open>k\<close> lines converts to
  \<open>k\<close> LineString features when \<open>lineMetrics\<close> is set, and to one MultiLineString
  feature otherwise. It fails for a MultiLineString feature whose properties are null,
  when \<open>promoteId\<close> is given: reading the promoted property raises a \<open>TypeError\<close>,
  with \<open>lineMetrics\<close> set or not, and nothing is emitted.
\<close>

theorem multiline_counterexample:
  "convertFeatures keep_all
     (Feature \<lparr>feature_id = Some (JNum (Fin 7)),
        geometry = Some (MultiLineString [[[Fin 0, Fin 0]], [[Fin 180, Fin 0]]]),
        properties = None\<rparr>)
     \<lparr>maxZoom = 14, tolerance = Fin 3, extent = Fin 4096, lineMetrics = True,
        promoteId = Some ''k'', generateId = False\<rparr>
   = Inl TypeError
   \<and> convertFeatures keep_all
     (Feature \<lparr>feature_id = Some (JNum (Fin 7)),
        geometry = Some (MultiLineString [[[Fin 0, Fin 0]], [[Fin 180, Fin 0]]]),
        properties = None\<rparr>)
     \<lparr>maxZoom = 14, tolerance = Fin 3, extent = Fin 4096, lineMetrics = False,
        promoteId = Some ''k'', generateId = False\<rparr>
   = Inl TypeError"
  by (simp add: convertFeatures_def convertFeature.simps resolveId_def promote_key_def)

text \<open>
  C5, amended: for every MultiLineString feature with \<open>k\<close> lines whose id resolves, to
  \<open>i\<close> say (\<open>promoteId\<close> is not given, or the feature has a properties object),
  \<open>convertFeature\<close> appends to the output sequence, when \<open>lineMetrics\<close> is set, exactly
  \<open>k\<close> features, one per line in order, each of kind LineString with id \<open>i\<close>, the
  feature's properties and the line flattened on its own (with its own metric, start and
  end); otherwise exactly one feature of kind MultiLineString that holds the \<open>k\<close>
  flattened lines.
\<close>

theorem multiline_features:
  assumes "geometry geojson = Some (MultiLineString ls)" "resolveId geojson opts index = Inr i"
  shows "(lineMetrics opts \<longrightarrow>
            convertFeature simplify features geojson opts index =
              Inr (features @ map (\<lambda>line. createFeature i ''LineString''
                (Line (convertLine simplify line [] (sqTolerance opts) False))
                (properties geojson)) ls))
     \<and> (\<not> lineMetrics opts \<longrightarrow>
            convertFeature simplify features geojson opts index =
              Inr (features @ [createFeature i ''MultiLineString''
                (Lines (map (\<lambda>line. convertLine simplify line [] (sqTolerance opts) False) ls))
                (properties geojson)]))"
  using convertFeature_exploded[OF assms, of simplify features]
    convertFeature_bundled[OF assms, of simplify features]
  by simp

theorem multiline_features_witness:
  "convertFeature keep_all []
     \<lparr>feature_id = Some (JStr ''a''),
      geometry = Some (MultiLineString [[[Fin 0, Fin 0]], [[Fin 180, Fin 0]]]),
      properties = Some [(''name'', JStr ''x'')]\<rparr>
     \<lparr>maxZoom = 14, tolerance = Fin 3, extent = Fin 4096, lineMetrics = True,
        promoteId = None, generateId = False\<rparr> None
   = Inr [\<lparr>pf_id = Some (JStr ''a''), pf_type = ''LineString'',
           pf_geometry = Line \<lparr>coords = [Some (Fin (1/2)), Some (Fin (1/2)), Some (Fin 1)],
             line_size = Fin 0, line_start = Fin 0, line_end = Fin 0\<rparr>,
           pf_tags = Some [(''name'', JStr ''x'')]\<rparr>,
          \<lparr>pf_id = Some (JStr ''a''), pf_type = ''LineString'',
           pf_geometry = Line \<lparr>coords = [Some (Fin 1), Some (Fin (1/2)), Some (Fin 1)],
             line_size = Fin 0, line_start = Fin 0, line_end = Fin 0\<rparr>,
           pf_tags = Some [(''name'', JStr ''x'')]\<rparr>]
   \<and> convertFeature keep_all []
     \<lparr>feature_id = Some (JStr ''a''),
      geometry = Some (MultiLineString [[[Fin 0, Fin 0]], [[Fin 180, Fin 0]]]),
      properties = Some [(''name'', JStr ''x'')]\<rparr>
     \<lparr>maxZoom = 14, tolerance = Fin 3, extent = Fin 4096, lineMetrics = False,
        promoteId = None, generateId = False\<rparr> None
   = Inr [\<lparr>pf_id = Some (JStr ''a''), pf_type = ''MultiLineString'',
           pf_geometry = Lines
            [\<lparr>coords = [Some (Fin (1/2)), Some (Fin (1/2)), Some (Fin 1)],
               line_size = Fin 0, line_start = Fin 0, line_end = Fin 0\<rparr>,
             \<lparr>coords = [Some (Fin 1), Some (Fin (1/2)), Some (Fin 1)],
               line_size = Fin 0, line_start = Fin 0, line_end = Fin 0\<rparr>],
           pf_tags = Some [(''name'', JStr ''x'')]\<rparr>]"
proof -
  let ?f = "\<lparr>feature_id = Some (JStr ''a''),
      geometry = Some (MultiLineString [[[Fin 0, Fin 0]], [[Fin 180, Fin 0]]]),
      properties = Some [(''name'', JStr ''x'')]\<rparr>"
  let ?on = "\<lparr>maxZoom = 14, tolerance = Fin 3, extent = Fin 4096, lineMetrics = True,
        promoteId = None, generateId = False\<rparr>"
  let ?off = "\<lparr>maxZoom = 14, tolerance = Fin 3, extent = Fin 4096, lineMetrics = False,
        promoteId = None, generateId = False\<rparr>"
  have g: "geometry ?f = Some (MultiLineString [[[Fin 0, Fin 0]], [[Fin 180, Fin 0]]])" by simp
  have r: "resolveId ?f ?on None = Inr (Some (JStr ''a''))"
    "resolveId ?f ?off None = Inr (Some (JStr ''a''))"
    by (simp_all add: resolveId_def promote_key_def)
  have l: "convertLine keep_all [[Fin 0, Fin 0]] [] tol False =
      \<lparr>coords = [Some (Fin (1/2)), Some (Fin (1/2)), Some (Fin 1)],
       line_size = Fin 0, line_start = Fin 0, line_end = Fin 0\<rparr>"
    "convertLine keep_all [[Fin 180, Fin 0]] [] tol False =
      \<lparr>coords = [Some (Fin 1), Some (Fin (1/2)), Some (Fin 1)],
       line_size = Fin 0, line_start = Fin 0, line_end = Fin 0\<rparr>" for tol
    by (simp_all add: convertLine_def keep_all_def js_set_def coord_def projectX_def
        projectY_equator rnd_small)
  from multiline_features[OF g r(1), of keep_all "[]"]
  have on: "convertFeature keep_all [] ?f ?on None =
     Inr [createFeature (Some (JStr ''a'')) ''LineString''
       (Line (convertLine keep_all [[Fin 0, Fin 0]] [] (sqTolerance ?on) False))
       (Some [(''name'', JStr ''x'')]),
       createFeature (Some (JStr ''a'')) ''LineString''
       (Line (convertLine keep_all [[Fin 180, Fin 0]] [] (sqTolerance ?on) False))
       (Some [(''name'', JStr ''x'')])]"
    by simp
  from multiline_features[OF g r(2), of keep_all "[]"]
  have off: "convertFeature keep_all [] ?f ?off None =
     Inr [createFeature (Some (JStr ''a'')) ''MultiLineString''
       (Lines [convertLine keep_all [[Fin 0, Fin 0]] [] (sqTolerance ?off) False,
               convertLine keep_all [[Fin 180, Fin 0]] [] (sqTolerance ?off) False])
       (Some [(''name'', JStr ''x'')])]"
    by simp
  show ?thesis
    unfolding on off l by (simp add: createFeature_def)
qed

lemma convertFeatures_loop_count:
  assumes "\<forall>f \<in> set fs. case geometry f of
             None \<Rightarrow> True
           | Some g \<Rightarrow> single_kind opts g \<and> (promote_key opts = None \<or> properties f \<noteq> None)"
  shows "\<exists>out. convertFeatures_loop simplify acc fs n opts = Inr out
     \<and> length out = length acc + length (filter (\<lambda>f. geometry f \<noteq> None) fs)
     \<and> map pf_tags out = map pf_tags acc @ map properties (filter (\<lambda>f. geometry f \<noteq> None) fs)"
  using assms
proof (induction fs arbitrary: acc n)
  case Nil
  show ?case by simp
next
  case (Cons x fs)
  from Cons.prems have rest: "\<forall>f \<in> set fs. case geometry f of
             None \<Rightarrow> True
           | Some g \<Rightarrow> single_kind opts g \<and> (promote_key opts = None \<or> properties f \<noteq> None)"
    by simp
  show ?case
  proof (cases "geometry x")
    case None
    then have "convertFeature simplify acc x opts (Some n) = Inr acc"
      by (rule convertFeature_no_geometry)
    with Cons.IH[OF rest, of acc "Suc n"] None show ?thesis by simp
  next
    case (Some g)
    with Cons.prems have g: "single_kind opts g" "promote_key opts = None \<or> properties x \<noteq> None"
      by simp_all
    from resolveId_total[OF g(2)] obtain i where i: "resolveId x opts (Some n) = Inr i" by blast
    from convertFeature_single[OF Some i g(1), of simplify acc] obtain c where
      c: "convertFeature simplify acc x opts (Some n) =
            Inr (acc @ [createFeature i (kind_of g) c (properties x)])"
      by blast
    from Cons.IH[OF rest, of "acc @ [createFeature i (kind_of g) c (properties x)]" "Suc n"]
    show ?thesis using c Some by (simp add: createFeature_def)
  qed
qed

text \<open>
  C6, as the spec states it: a collection of \<open>N\<close> entries, \<open>M\<close> of them without geometry
  and the others of recognised kinds that emit one feature, converts to \<open>N - M\<close>
  features. It fails for the collection of one Point feature whose properties are null,
  when \<open>promoteId\<close> is given: reading the promoted property raises a \<open>TypeError\<close> and
  nothing is returned.
\<close>

theorem missing_geometry_counterexample:
  "convertFeatures keep_all
     (FeatureCollection
        [\<lparr>feature_id = None, geometry = Some (Point [Fin 0, Fin 0]), properties = None\<rparr>])
     \<lparr>maxZoom = 14, tolerance = Fin 3, extent = Fin 4096, lineMetrics = False,
        promoteId = Some ''k'', generateId = False\<rparr>
   = Inl TypeError"
  by (simp add: convertFeatures_def convertFeature.simps resolveId_def promote_key_def)

text \<open>
  C6, amended: for every feature collection of \<open>N\<close> entries of which \<open>M\<close> have an absent
  or null geometry, the others having a recognised kind that is no geometry collection
  and is not exploded, and a properties object whenever \<open>promoteId\<close> is given,
  \<open>convert\<close> returns exactly \<open>N - M\<close> features: those of the entries that have a
  geometry, in order, each with the properties of its entry. An entry without geometry
  contributes nothing and raises no error.
\<close>

theorem missing_geometry_skipped:
  assumes "\<forall>f \<in> set fs. case geometry f of
             None \<Rightarrow> True
           | Some g \<Rightarrow> single_kind opts g \<and> (promote_key opts = None \<or> properties f \<noteq> None)"
  shows "\<exists>out. convertFeatures simplify (FeatureCollection fs) opts = Inr out
     \<and> length out = length fs - length (filter (\<lambda>f. geometry f = None) fs)
     \<and> map pf_tags out = map properties (filter (\<lambda>f. geometry f \<noteq> None) fs)"
proof -
  from convertFeatures_loop_count[OF assms, of simplify "[]" 0] obtain out where
    out: "convertFeatures_loop simplify [] fs 0 opts = Inr out"
    "length out = length (filter (\<lambda>f. geometry f \<noteq> None) fs)"
    "map pf_tags out = map properties (filter (\<lambda>f. geometry f \<noteq> None) fs)"
    by auto
  have "length (filter (\<lambda>f. geometry f \<noteq> None) fs) =
      length fs - length (filter (\<lambda>f. geometry f = None) fs)"
    using sum_length_filter_compl[of "\<lambda>f. geometry f = None" fs] by simp
  with out show ?thesis by (simp add: convertFeatures_def)
qed

theorem missing_geometry_skipped_witness:
  "convertFeatures keep_all
     (FeatureCollection
        [\<lparr>feature_id = None, geometry = None, properties = Some [(''n'', JNum (Fin 1))]\<rparr>,
         \<lparr>feature_id = None, geometry = Some (Point [Fin 0, Fin 0]),
            properties = Some [(''n'', JNum (Fin 2))]\<rparr>,
         \<lparr>feature_id = None, geometry = None, properties = None\<rparr>])
     \<lparr>maxZoom = 14, tolerance = Fin 3, extent = Fin 4096, lineMetrics = False,
        promoteId = Some ''n'', generateId = False\<rparr>
   = Inr [\<lparr>pf_id = Some (JNum (Fin 2)), pf_type = ''Point'',
           pf_geometry = Points [Fin (1/2), Fin (1/2), Fin 0],
           pf_tags = Some [(''n'', JNum (Fin 2))]\<rparr>]"
proof -
  let ?fs = "[\<lparr>feature_id = None, geometry = None, properties = Some [(''n'', JNum (Fin 1))]\<rparr>,
         \<lparr>feature_id = None, geometry = Some (Point [Fin 0, Fin 0]),
            properties = Some [(''n'', JNum (Fin 2))]\<rparr>,
         \<lparr>feature_id = None, geometry = None, properties = None\<rparr>]"
  let ?opts = "\<lparr>maxZoom = 14, tolerance = Fin 3, extent = Fin 4096, lineMetrics = False,
        promoteId = Some ''n'', generateId = False\<rparr>"
  have "\<forall>f \<in> set ?fs. case geometry f of
             None \<Rightarrow> True
           | Some g \<Rightarrow> single_kind ?opts g \<and> (promote_key ?opts = None \<or> properties f \<noteq> None)"
    by simp
  from missing_geometry_skipped[OF this, of keep_all]
  obtain out where "convertFeatures keep_all (FeatureCollection ?fs) ?opts = Inr out"
    "length out = 1"
    by auto
  then show ?thesis
    by (simp add: convertFeatures_def convertFeature.simps resolveId_def promote_key_def
        createFeature_def convertPoint_def coord_def projectX_def projectY_equator rnd_small)
qed

lemma convertFeature_each_single:
  assumes "\<forall>g \<in> set gs. single_kind opts g"
    "\<And>g. resolveId \<lparr>feature_id = i, geometry = g, properties = ps\<rparr> opts index = Inr i"
  shows "\<exists>new. convertFeature_each simplify features gs i ps opts index = Inr (features @ new)
     \<and> length new = length gs
     \<and> (\<forall>j < length gs. pf_id (new ! j) = i \<and> pf_tags (new ! j) = ps
            \<and> pf_type (new ! j) = kind_of (gs ! j))"
  using assms(1)
proof (induction gs arbitrary: features)
  case Nil
  show ?case by simp
next
  case (Cons g gs)
  let ?child = "\<lparr>feature_id = i, geometry = Some g, properties = ps\<rparr>"
  from Cons.prems have g: "single_kind opts g" and rest: "\<forall>g \<in> set gs. single_kind opts g"
    by simp_all
  from convertFeature_single[of ?child g opts index i simplify features] g assms(2)
  obtain c where c: "convertFeature simplify features ?child opts index =
      Inr (features @ [createFeature i (kind_of g) c ps])"
    by auto
  from Cons.IH[OF rest, of "features @ [createFeature i (kind_of g) c ps]"]
  obtain new where new:
    "convertFeature_each simplify (features @ [createFeature i (kind_of g) c ps]) gs i ps opts index
       = Inr ((features @ [createFeature i (kind_of g) c ps]) @ new)"
    "length new = length gs"
    "\<forall>j < length gs. pf_id (new ! j) = i \<and> pf_tags (new ! j) = ps
            \<and> pf_type (new ! j) = kind_of (gs ! j)"
    by blast
  let ?new = "createFeature i (kind_of g) c ps # new"
  have "convertFeature_each simplify features (g # gs) i ps opts index = Inr (features @ ?new)"
    using c new(1) by simp
  moreover have "length ?new = length (g # gs)" using new(2) by simp
  moreover have "\<forall>j < length (g # gs). pf_id (?new ! j) = i \<and> pf_tags (?new ! j) = ps
            \<and> pf_type (?new ! j) = kind_of ((g # gs) ! j)"
  proof (intro allI impI)
    fix j assume "j < length (g # gs)"
    then show "pf_id (?new ! j) = i \<and> pf_tags (?new ! j) = ps
            \<and> pf_type (?new ! j) = kind_of ((g # gs) ! j)"
      using new(3) by (cases j) (simp_all add: createFeature_def)
  qed
  ultimately show ?case by blast
qed

lemma never_collection_kind:
  assumes "convertFeatures simplify data opts = Inr out" "f \<in> set out"
  shows "pf_type f \<in> set recognised \<and> pf_type f \<noteq> ''GeometryCollection''"
proof -
  from convertFeatures_parts[OF assms(1)] obtain parts where
    parts: "out = concat parts"
    "\<forall>k < length parts. \<forall>f \<in> set (parts ! k).
        pf_type f \<in> set recognised \<and> pf_type f \<noteq> ''GeometryCollection''"
    by blast
  from assms(2) parts(1) obtain p where "p \<in> set parts" "f \<in> set p" by auto
  then obtain k where "k < length parts" "parts ! k = p" by (auto simp: in_set_conv_nth)
  with parts(2) \<open>f \<in> set p\<close> show ?thesis by blast
qed

text \<open>
  C7, as the spec states it: a geometry collection of \<open>k\<close> children of recognised
  non-collection kinds emits one feature per child. It fails for a collection whose only
  child is a MultiLineString of two lines, when \<open>lineMetrics\<close> is set: the child is
  exploded, and two LineString features are emitted for one child.
\<close>

theorem collection_counterexample:
  "map_sum id (map pf_type)
     (convertFeatures keep_all
        (Feature \<lparr>feature_id = None,
           geometry = Some (GeometryCollection
             [MultiLineString [[[Fin 0, Fin 0]], [[Fin 180, Fin 0]]]]),
           properties = Some [(''name'', JStr ''x'')]\<rparr>)
        \<lparr>maxZoom = 14, tolerance = Fin 3, extent = Fin 4096, lineMetrics = True,
           promoteId = None, generateId = False\<rparr>)
   = Inr [''LineString'', ''LineString'']
   \<and> length [MultiLineString [[[Fin 0, Fin 0]], [[Fin 180, Fin 0]]]] = 1"
  by (simp add: convertFeatures_def convertFeature.simps resolveId_def promote_key_def
      createFeature_def)

text \<open>
  C7, amended: for every GeometryCollection feature whose id resolves to \<open>i\<close> and whose
  \<open>k\<close> children are each of a recognised non-collection kind that is not exploded (no
  MultiLineString when \<open>lineMetrics\<close> is set), \<open>convertFeature\<close> appends exactly one
  feature per child to the output sequence, in order, each with id \<open>i\<close>, the parent's
  properties and the kind of its child, and no feature for the collection itself. And
  whatever the input, no feature that \<open>convert\<close> returns has kind GeometryCollection.
\<close>

theorem collection_features:
  "(geometry geojson = Some (GeometryCollection gs) \<and> resolveId geojson opts index = Inr i
      \<and> (\<forall>g \<in> set gs. single_kind opts g) \<longrightarrow>
      (\<exists>new. convertFeature simplify features geojson opts index = Inr (features @ new)
         \<and> length new = length gs
         \<and> (\<forall>j < length gs. pf_id (new ! j) = i \<and> pf_tags (new ! j) = properties geojson
                \<and> pf_type (new ! j) = kind_of (gs ! j))))
   \<and> (convertFeatures simplify data opts = Inr out \<longrightarrow>
        (\<forall>f \<in> set out. pf_type f \<noteq> ''GeometryCollection''))"
proof (intro conjI impI)
  assume h: "geometry geojson = Some (GeometryCollection gs) \<and> resolveId geojson opts index = Inr i
      \<and> (\<forall>g \<in> set gs. single_kind opts g)"
  then have "convertFeature simplify features geojson opts index =
      convertFeature_each simplify features gs i (properties geojson) opts index"
    by (simp add: convertFeature_collection)
  moreover from h have "\<And>g. resolveId \<lparr>feature_id = i, geometry = g, properties = properties geojson\<rparr>
      opts index = Inr i"
    by (simp add: resolveId_child)
  ultimately show "\<exists>new. convertFeature simplify features geojson opts index = Inr (features @ new)
         \<and> length new = length gs
         \<and> (\<forall>j < length gs. pf_id (new ! j) = i \<and> pf_tags (new ! j) = properties geojson
                \<and> pf_type (new ! j) = kind_of (gs ! j))"
    using convertFeature_each_single[of gs opts i "properties geojson" index simplify features] h
    by simp
next
  assume "convertFeatures simplify data opts = Inr out"
  then show "\<forall>f \<in> set out. pf_type f \<noteq> ''GeometryCollection''"
    using never_collection_kind by blast
qed

theorem collection_features_witness:
  "map_sum id (map (\<lambda>f. (pf_id f, pf_type f, pf_tags f)))
     (convertFeature keep_all []
        \<lparr>feature_id = Some (JStr ''a''),
         geometry = Some (GeometryCollection
           [Point [Fin 0, Fin 0], MultiPoint [[Fin 0, Fin 0]], Point [Fin 180, Fin 0]]),
         properties = Some [(''name'', JStr ''x'')]\<rparr>
        \<lparr>maxZoom = 14, tolerance = Fin 3, extent = Fin 4096, lineMetrics = True,
           promoteId = None, generateId = False\<rparr> None)
   = Inr [(Some (JStr ''a''), ''Point'', Some [(''name'', JStr ''x'')]),
          (Some (JStr ''a''), ''MultiPoint'', Some [(''name'', JStr ''x'')]),
          (Some (JStr ''a''), ''Point'', Some [(''name'', JStr ''x'')])]"
proof -
  let ?gs = "[Point [Fin 0, Fin 0], MultiPoint [[Fin 0, Fin 0]], Point [Fin 180, Fin 0]]"
  let ?f = "\<lparr>feature_id = Some (JStr ''a''), geometry = Some (GeometryCollection ?gs),
         properties = Some [(''name'', JStr ''x'')]\<rparr>"
  let ?opts = "\<lparr>maxZoom = 14, tolerance = Fin 3, extent = Fin 4096, lineMetrics = True,
           promoteId = None, generateId = False\<rparr>"
  have h: "geometry ?f = Some (GeometryCollection ?gs)
      \<and> resolveId ?f ?opts None = Inr (Some (JStr ''a''))
      \<and> (\<forall>g \<in> set ?gs. single_kind ?opts g)"
    by (simp add: resolveId_def promote_key_def)
  from collection_features[THEN conjunct1, rule_format, OF h, of keep_all "[]"]
  obtain new where "convertFeature keep_all [] ?f ?opts None = Inr ([] @ new)"
    "length new = length ?gs"
    by blast
  then show ?thesis
    by (auto simp: convertFeature.simps resolveId_def promote_key_def createFeature_def)
qed

section \<open>Unsupported geometry kinds\<close>

lemma unsupported_aborts:
  "geometry geojson = Some g \<Longrightarrow> unsupported g \<Longrightarrow>
     \<exists>e. convertFeature simplify features geojson opts index = Inl e"
  and
  "\<exists>g \<in> set gs. unsupported g \<Longrightarrow>
     \<exists>e. convertFeature_each simplify features gs i ps opts index = Inl e"
proof (induction simplify features geojson opts index and simplify features gs i ps opts index
    arbitrary: g and rule: convertFeature_convertFeature_each.induct)
  case (1 simplify features geojson opts index)
  show ?case
  proof (cases "resolveId geojson opts index")
    case (Inl e)
    with "1.prems"(1) show ?thesis by (simp add: convertFeature_id_error)
  next
    case (Inr i)
    from "1.prems"(2) consider (other) s where "g = OtherGeometry s" "s \<notin> set recognised"
      | (gc) gs where "g = GeometryCollection gs" "\<exists>g' \<in> set gs. unsupported g'"
      by (cases g) auto
    then show ?thesis
    proof cases
      case other
      with "1.prems"(1) Inr show ?thesis by (simp add: convertFeature_other)
    next
      case gc
      from "1.prems"(1) gc(1) have geo: "geometry geojson = Some (GeometryCollection gs)" by simp
      from "1.IH"[OF geo Inr refl gc(2)] show ?thesis
        by (simp add: convertFeature_collection[OF geo Inr])
    qed
  qed
next
  case (2 simplify features i ps opts index)
  then show ?case by simp
next
  case (3 simplify features g gs i ps opts index)
  let ?child = "\<lparr>feature_id = i, geometry = Some g, properties = ps\<rparr>"
  show ?case
  proof (cases "convertFeature simplify features ?child opts index")
    case (Inl e)
    then show ?thesis by simp
  next
    case (Inr b)
    have "\<not> unsupported g"
    proof
      assume "unsupported g"
      with "3.IH"(1)[of g] Inr show False by simp
    qed
    with "3.prems" have "\<exists>g' \<in> set gs. unsupported g'" by simp
    from "3.IH"(2)[OF Inr this] Inr show ?thesis by simp
  qed
qed

lemma unsupported_error:
  "geometry geojson = Some g \<Longrightarrow> \<not> incomplete g \<Longrightarrow> resolveId geojson opts index = Inr i \<Longrightarrow>
     (if unsupported g
      then convertFeature simplify features geojson opts index = Inl UnsupportedGeometry
      else \<exists>out. convertFeature simplify features geojson opts index = Inr out)"
  and
  "\<forall>g \<in> set gs. \<not> incomplete g \<Longrightarrow>
   (\<And>g. resolveId \<lparr>feature_id = i, geometry = g, properties = ps\<rparr> opts index = Inr i) \<Longrightarrow>
     (if \<exists>g \<in> set gs. unsupported g
      then convertFeature_each simplify features gs i ps opts index = Inl UnsupportedGeometry
      else \<exists>out. convertFeature_each simplify features gs i ps opts index = Inr out)"
proof (induction simplify features geojson opts index and simplify features gs i ps opts index
    arbitrary: g i and rule: convertFeature_convertFeature_each.induct)
  case (1 simplify features geojson opts index)
  show ?case
  proof (cases "single_kind opts g")
    case True
    then have "\<not> unsupported g" by (cases g) simp_all
    with convertFeature_single[OF "1.prems"(1,3) True, of simplify features] show ?thesis
      by auto
  next
    case False
    then consider (mls) ls where "g = MultiLineString ls" "lineMetrics opts"
      | (gc) gs where "g = GeometryCollection gs"
      | (other) s where "g = OtherGeometry s"
      by (cases g) auto
    then show ?thesis
    proof cases
      case mls
      with "1.prems" show ?thesis by (simp add: convertFeature_exploded)
    next
      case gc
      from "1.prems"(1) gc have geo: "geometry geojson = Some (GeometryCollection gs)" by simp
      from "1.prems"(2) gc have ok: "\<forall>g \<in> set gs. \<not> incomplete g" by simp
      from "1.IH"[OF geo "1.prems"(3) refl ok] resolveId_child[OF "1.prems"(3)] gc
      show ?thesis
        by (simp add: convertFeature_collection[OF geo "1.prems"(3)])
    next
      case other
      with "1.prems" show ?thesis by (simp add: convertFeature_other)
    qed
  qed
next
  case (2 simplify features i ps opts index)
  then show ?case by simp
next
  case (3 simplify features g gs i ps opts index)
  let ?child = "\<lparr>feature_id = i, geometry = Some g, properties = ps\<rparr>"
  from "3.prems"(1) have g: "\<not> incomplete g" and rest: "\<forall>g \<in> set gs. \<not> incomplete g"
    by simp_all
  from "3.IH"(1)[of g i] g "3.prems"(2)[of "Some g"]
  have child: "if unsupported g
      then convertFeature simplify features ?child opts index = Inl UnsupportedGeometry
      else \<exists>out. convertFeature simplify features ?child opts index = Inr out"
    by simp
  show ?case
  proof (cases "unsupported g")
    case True
    with child show ?thesis by simp
  next
    case False
    with child obtain b where b: "convertFeature simplify features ?child opts index = Inr b"
      by auto
    from "3.IH"(2)[OF b rest "3.prems"(2)] b False show ?thesis by simp
  qed
qed

lemma convertFeatures_loop_aborts:
  "\<exists>f \<in> set fs. \<exists>g. geometry f = Some g \<and> unsupported g \<Longrightarrow>
     \<exists>e. convertFeatures_loop simplify acc fs n opts = Inl e"
proof (induction fs arbitrary: acc n)
  case Nil
  then show ?case by simp
next
  case (Cons x fs)
  show ?case
  proof (cases "convertFeature simplify acc x opts (Some n)")
    case (Inl e)
    then show ?thesis by simp
  next
    case (Inr b)
    have "\<not> (\<exists>g. geometry x = Some g \<and> unsupported g)"
    proof
      assume "\<exists>g. geometry x = Some g \<and> unsupported g"
      then obtain g where "geometry x = Some g" "unsupported g" by blast
      from unsupported_aborts(1)[OF this, of simplify acc opts "Some n"] Inr show False by simp
    qed
    with Cons.prems have "\<exists>f \<in> set fs. \<exists>g. geometry f = Some g \<and> unsupported g" by auto
    from Cons.IH[OF this, of b "Suc n"] Inr show ?thesis by simp
  qed
qed

lemma convertFeature_unsupported_error:
  assumes "\<forall>g. geometry x = Some g \<longrightarrow> \<not> incomplete g"
    "promote_key opts = None \<or> geometry x = None \<or> properties x \<noteq> None"
  shows "if \<exists>g. geometry x = Some g \<and> unsupported g
     then convertFeature simplify acc x opts index = Inl UnsupportedGeometry
     else \<exists>out. convertFeature simplify acc x opts index = Inr out"
proof (cases "geometry x")
  case None
  then show ?thesis by (simp add: convertFeature_no_geometry)
next
  case (Some g)
  with assms(2) have "promote_key opts = None \<or> properties x \<noteq> None" by simp
  from resolveId_total[OF this] obtain i where i: "resolveId x opts index = Inr i" by blast
  from assms(1) Some have "\<not> incomplete g" by simp
  from unsupported_error(1)[OF Some this i, of simplify acc] Some show ?thesis by simp
qed

lemma convertFeatures_loop_error:
  assumes "\<forall>f \<in> set fs. (\<forall>g. geometry f = Some g \<longrightarrow> \<not> incomplete g)
      \<and> (promote_key opts = None \<or> geometry f = None \<or> properties f \<noteq> None)"
  shows "if \<exists>f \<in> set fs. \<exists>g. geometry f = Some g \<and> unsupported g
     then convertFeatures_loop simplify acc fs n opts = Inl UnsupportedGeometry
     else \<exists>out. convertFeatures_loop simplify acc fs n opts = Inr out"
  using assms
proof (induction fs arbitrary: acc n)
  case Nil
  show ?case by simp
next
  case (Cons x fs)
  from Cons.prems have x: "\<forall>g. geometry x = Some g \<longrightarrow> \<not> incomplete g"
    "promote_key opts = None \<or> geometry x = None \<or> properties x \<noteq> None"
    and rest: "\<forall>f \<in> set fs. (\<forall>g. geometry f = Some g \<longrightarrow> \<not> incomplete g)
      \<and> (promote_key opts = None \<or> geometry f = None \<or> properties f \<noteq> None)"
    by simp_all
  note head = convertFeature_unsupported_error[OF x, of simplify acc "Some n"]
  show ?case
  proof (cases "\<exists>g. geometry x = Some g \<and> unsupported g")
    case True
    with head have "convertFeature simplify acc x opts (Some n) = Inl UnsupportedGeometry"
      by simp
    with True show ?thesis by auto
  next
    case False
    with head obtain b where b: "convertFeature simplify acc x opts (Some n) = Inr b"
      by auto
    from Cons.IH[OF rest, of b "Suc n"] b False show ?thesis by auto
  qed
qed

text \<open>
  C4, as the spec states it: an input that holds a geometry of an unrecognised kind fails
  with \<open>UnsupportedGeometry\<close>. It fails for the bare geometry of kind \<open>Circle\<close> when
  \<open>promoteId\<close> is given: the id is resolved before the kind is looked at, and reading
  the promoted property of the absent properties raises a \<open>TypeError\<close> instead.
\<close>

theorem unsupported_counterexample:
  "convertFeatures keep_all (Geometry (OtherGeometry ''Circle''))
     \<lparr>maxZoom = 14, tolerance = Fin 3, extent = Fin 4096, lineMetrics = False,
        promoteId = Some ''k'', generateId = False\<rparr>
   = Inl TypeError
   \<and> TypeError \<noteq> UnsupportedGeometry"
  by (simp add: convertFeatures_def convertFeature.simps resolveId_def promote_key_def
      UnsupportedGeometry_def)

text \<open>
  C4, amended: for every input that holds a geometry whose kind string is not recognised
  (as the geometry of a feature, or inside its geometry collections), \<open>convert\<close> fails:
  it raises an exception and returns no sequence of features, partial or not. The
  exception is \<open>UnsupportedGeometry\<close> whenever no geometry of the input lacks its
  coordinates and, if \<open>promoteId\<close> is given, every feature that has a geometry has a
  properties object.
\<close>

theorem unsupported_geometry_aborts:
  "((\<exists>f \<in> set (features_of data). \<exists>g. geometry f = Some g \<and> unsupported g) \<longrightarrow>
      (\<exists>e. convertFeatures simplify data opts = Inl e))
   \<and> ((\<exists>f \<in> set (features_of data). \<exists>g. geometry f = Some g \<and> unsupported g)
       \<and> (\<forall>f \<in> set (features_of data). (\<forall>g. geometry f = Some g \<longrightarrow> \<not> incomplete g)
             \<and> (promote_key opts = None \<or> geometry f = None \<or> properties f \<noteq> None)) \<longrightarrow>
      convertFeatures simplify data opts = Inl UnsupportedGeometry)"
proof (intro conjI impI)
  assume "\<exists>f \<in> set (features_of data). \<exists>g. geometry f = Some g \<and> unsupported g"
  then show "\<exists>e. convertFeatures simplify data opts = Inl e"
  proof (cases data)
    case (FeatureCollection fs)
    assume "\<exists>f \<in> set (features_of data). \<exists>g. geometry f = Some g \<and> unsupported g"
    with FeatureCollection show ?thesis
      using convertFeatures_loop_aborts[of fs simplify "[]" 0 opts]
      by (simp add: convertFeatures_def)
  next
    case (Feature x)
    assume "\<exists>f \<in> set (features_of data). \<exists>g. geometry f = Some g \<and> unsupported g"
    with Feature show ?thesis
      using unsupported_aborts(1)[of x _ simplify "[]" opts None]
      by (auto simp: convertFeatures_def)
  next
    case (Geometry g)
    assume "\<exists>f \<in> set (features_of data). \<exists>g. geometry f = Some g \<and> unsupported g"
    with Geometry show ?thesis
      using unsupported_aborts(1)[of "\<lparr>feature_id = None, geometry = Some g, properties = None\<rparr>"
          g simplify "[]" opts None]
      by (simp add: convertFeatures_def)
  qed
next
  assume h: "(\<exists>f \<in> set (features_of data). \<exists>g. geometry f = Some g \<and> unsupported g)
       \<and> (\<forall>f \<in> set (features_of data). (\<forall>g. geometry f = Some g \<longrightarrow> \<not> incomplete g)
             \<and> (promote_key opts = None \<or> geometry f = None \<or> properties f \<noteq> None))"
  show "convertFeatures simplify data opts = Inl UnsupportedGeometry"
  proof (cases data)
    case (FeatureCollection fs)
    with h show ?thesis
      using convertFeatures_loop_error[of fs opts simplify "[]" 0]
      by (simp add: convertFeatures_def)
  next
    case (Feature x)
    with h show ?thesis
      using convertFeature_unsupported_error[of x opts simplify "[]" None]
      by (simp add: convertFeatures_def)
  next
    case (Geometry g)
    with h show ?thesis
      using convertFeature_unsupported_error[of
          "\<lparr>feature_id = None, geometry = Some g, properties = None\<rparr>" opts simplify "[]" None]
      by (simp add: convertFeatures_def)
  qed
qed

theorem unsupported_geometry_aborts_witness:
  "convertFeatures keep_all (Geometry (OtherGeometry ''Circle''))
     \<lparr>maxZoom = 14, tolerance = Fin 3, extent = Fin 4096, lineMetrics = False,
        promoteId = None, generateId = False\<rparr>
   = Inl UnsupportedGeometry
   \<and> convertFeatures keep_all
     (FeatureCollection
        [\<lparr>feature_id = None, geometry = Some (Point [Fin 0, Fin 0]),
            properties = Some [(''k'', JNum (Fin 1))]\<rparr>,
         \<lparr>feature_id = None,
            geometry = Some (GeometryCollection [Point [Fin 0, Fin 0], OtherGeometry ''Circle'']),
            properties = Some [(''k'', JNum (Fin 2))]\<rparr>])
     \<lparr>maxZoom = 14, tolerance = Fin 3, extent = Fin 4096, lineMetrics = False,
        promoteId = Some ''k'', generateId = False\<rparr>
   = Inl UnsupportedGeometry"
proof -
  let ?o1 = "\<lparr>maxZoom = 14, tolerance = Fin 3, extent = Fin 4096, lineMetrics = False,
        promoteId = None, generateId = False\<rparr>"
  let ?o2 = "\<lparr>maxZoom = 14, tolerance = Fin 3, extent = Fin 4096, lineMetrics = False,
        promoteId = Some ''k'', generateId = False\<rparr>"
  let ?d1 = "Geometry (OtherGeometry ''Circle'')"
  let ?d2 = "FeatureCollection
        [\<lparr>feature_id = None, geometry = Some (Point [Fin 0, Fin 0]),
            properties = Some [(''k'', JNum (Fin 1))]\<rparr>,
         \<lparr>feature_id = None,
            geometry = Some (GeometryCollection [Point [Fin 0, Fin 0], OtherGeometry ''Circle'']),
            properties = Some [(''k'', JNum (Fin 2))]\<rparr>]"
  have "(\<exists>f \<in> set (features_of ?d1). \<exists>g. geometry f = Some g \<and> unsupported g)
       \<and> (\<forall>f \<in> set (features_of ?d1). (\<forall>g. geometry f = Some g \<longrightarrow> \<not> incomplete g)
             \<and> (promote_key ?o1 = None \<or> geometry f = None \<or> properties f \<noteq> None))"
    by (simp add: recognised_def promote_key_def)
  with unsupported_geometry_aborts[of ?d1 keep_all ?o1]
  have 1: "convertFeatures keep_all ?d1 ?o1 = Inl UnsupportedGeometry" by blast
  have "(\<exists>f \<in> set (features_of ?d2). \<exists>g. geometry f = Some g \<and> unsupported g)
       \<and> (\<forall>f \<in> set (features_of ?d2). (\<forall>g. geometry f = Some g \<longrightarrow> \<not> incomplete g)
             \<and> (promote_key ?o2 = None \<or> geometry f = None \<or> properties f \<noteq> None))"
    by (simp add: recognised_def promote_key_def)
  with unsupported_geometry_aborts[of ?d2 keep_all ?o2]
  have 2: "convertFeatures keep_all ?d2 ?o2 = Inl UnsupportedGeometry" by blast
  from 1 2 show ?thesis by simp
qed

end
